theory Spec2Isabelle
  imports Main "HOL-Library.Word"
begin

section \<open>JavaScript strings\<close>

text \<open>
  A JavaScript string is modelled as a \<^typ>\<open>string\<close>: a list of code units, restricted to
  the code units 0..255. Numbers are unbounded integers (the source's doubles are exact
  below \<open>2^53\<close>); \<open>parseInt\<close> is only ever applied to a run of decimal digits.
\<close>

definition isDigit :: "char \<Rightarrow> bool" where
  "isDigit c = (let n = (of_char c :: nat) in 48 \<le> n \<and> n \<le> 57)"

definition isUpper :: "char \<Rightarrow> bool" where
  "isUpper c = (let n = (of_char c :: nat) in 65 \<le> n \<and> n \<le> 90)"

definition isLower :: "char \<Rightarrow> bool" where
  "isLower c = (let n = (of_char c :: nat) in 97 \<le> n \<and> n \<le> 122)"

definition isAlpha :: "char \<Rightarrow> bool" where
  "isAlpha c = (isUpper c \<or> isLower c)"

text \<open>The class \<open>\w\<close> of a regular expression.\<close>

definition isWordChar :: "char \<Rightarrow> bool" where
  "isWordChar c = (isAlpha c \<or> isDigit c \<or> c = CHR ''_'')"

text \<open>The class \<open>\s\<close>, which is also the set that \<open>String.prototype.trim\<close> strips:
  tab, line feed, vertical tab, form feed, carriage return, space, no-break space.\<close>

definition isSpace :: "char \<Rightarrow> bool" where
  "isSpace c = (c \<in> set [CHR 0x09, CHR 0x0A, CHR 0x0B, CHR 0x0C, CHR 0x0D, CHR 0x20, CHR 0xA0])"

text \<open>The complement of \<open>.\<close> in a regular expression: the line terminators.\<close>

definition isLineTerminator :: "char \<Rightarrow> bool" where
  "isLineTerminator c = (c = CHR 0x0A \<or> c = CHR 0x0D)"

definition trim :: "string \<Rightarrow> string" where
  "trim s = rev (dropWhile isSpace (rev (dropWhile isSpace s)))"

definition lowerChar :: "char \<Rightarrow> char" where
  "lowerChar c = (if isUpper c then char_of ((of_char c :: nat) + 32) else c)"

text \<open>\<open>toLowerCase\<close>: no code unit outside \<open>A-Z\<close> is mapped to an ASCII letter, and the
  results are only ever compared with ASCII words.\<close>

definition toLowerCase :: "string \<Rightarrow> string" where
  "toLowerCase s = map lowerChar s"

definition startsWith :: "string \<Rightarrow> string \<Rightarrow> bool" where
  "startsWith s p = (take (length p) s = p)"

definition endsWith :: "string \<Rightarrow> string \<Rightarrow> bool" where
  "endsWith s p = (length p \<le> length s \<and> drop (length s - length p) s = p)"

fun strIncludes :: "string \<Rightarrow> string \<Rightarrow> bool" where
  "strIncludes [] p = (p = [])"
| "strIncludes (c # cs) p = (startsWith (c # cs) p \<or> strIncludes cs p)"

definition digitVal :: "char \<Rightarrow> nat" where
  "digitVal c = (of_char c :: nat) - 48"

text \<open>\<open>parseInt(ds, 10)\<close> on a string of decimal digits.\<close>

definition parseInt :: "string \<Rightarrow> nat" where
  "parseInt ds = foldl (\<lambda>acc c. acc * 10 + digitVal c) 0 ds"

definition digitChar :: "nat \<Rightarrow> char" where
  "digitChar d = char_of (48 + d)"

text \<open>\<open>Number.prototype.toString()\<close> of a non-negative integer.\<close>

function showNat :: "nat \<Rightarrow> string" where
  "showNat n = (if n < 10 then [digitChar n] else showNat (n div 10) @ [digitChar (n mod 10)])"
  by pat_completeness auto
termination
  by (relation "measure id") auto

declare showNat.simps [simp del]

definition padStart2 :: "string \<Rightarrow> string" where
  "padStart2 s = (if length s < 2 then replicate (2 - length s) CHR ''0'' @ s else s)"

section \<open>Time offsets (lsp/time-utils.ts)\<close>

record TimeOffset =
  hours :: nat
  minutes :: nat
  sign :: int

text \<open>
  One optional group \<open>(?:(\d+)u)?\<close> of the offset and duration patterns: a greedy run of
  digits followed by the unit letter. Giving digits back cannot help (the next
  character would be a digit, not the unit), so the group matches exactly when the
  maximal run is non-empty and the unit follows it.
\<close>

definition optUnit :: "char \<Rightarrow> string \<Rightarrow> string option \<times> string" where
  "optUnit u s =
     (let ds = takeWhile isDigit s; r = dropWhile isDigit s
      in if ds \<noteq> [] \<and> r \<noteq> [] \<and> hd r = u then (Some ds, tl r) else (None, s))"

definition orZero :: "string option \<Rightarrow> string" where
  "orZero g = (case g of None \<Rightarrow> ''0'' | Some ds \<Rightarrow> ds)"

text \<open>\<open>parseTimeOffset\<close>: the pattern \<open>/^([+-])(?:(\d+)h)?(?:(\d+)m)?$/\<close>.\<close>

definition parseTimeOffset :: "string \<Rightarrow> TimeOffset option" where
  "parseTimeOffset offset =
     (case offset of
        [] \<Rightarrow> None
      | sg # rest \<Rightarrow>
          if sg \<noteq> CHR ''+'' \<and> sg \<noteq> CHR ''-'' then None
          else
            (let (hoursStr, r1) = optUnit CHR ''h'' rest;
                 (minutesStr, r2) = optUnit CHR ''m'' r1
             in if r2 \<noteq> [] then None
                else
                  (let h = parseInt (orZero hoursStr);
                       m = parseInt (orZero minutesStr)
                   in if h = 0 \<and> m = 0 then None
                      else Some \<lparr>hours = h, minutes = m,
                                 sign = (if sg = CHR ''+'' then 1 else -1)\<rparr>)))"

record Validation =
  valid :: bool
  error :: "string option"

definition validateTimeOffset :: "string \<Rightarrow> Validation" where
  "validateTimeOffset offset =
     (if trim offset = [] then \<lparr>valid = False, error = Some ''Offset cannot be empty''\<rparr>
      else
        (case parseTimeOffset offset of
           None \<Rightarrow>
             \<lparr>valid = False,
              error = Some ''Invalid offset format. Use +/-[Nh][Nm] (e.g., +10m, -1h30m, +2h)''\<rparr>
         | Some parsed \<Rightarrow>
             (let totalMinutes = hours parsed * 60 + minutes parsed
              in if totalMinutes > 12 * 60
                 then \<lparr>valid = False, error = Some ''Offset too large (max 12 hours)''\<rparr>
                 else \<lparr>valid = True, error = None\<rparr>)))"


section \<open>Shifting a wall-clock string (lsp/time-utils.ts)\<close>

datatype timeFormat = clock12 | clock24 | word

record ParsedTime =
  pt_hours :: nat
  pt_minutes :: nat
  pt_format :: timeFormat

text \<open>The optional group \<open>(?::(\d{2}))?\<close>: a colon and exactly two digits.\<close>

definition optColonMinutes :: "string \<Rightarrow> string option \<times> string" where
  "optColonMinutes r =
     (case r of
        c # d1 # d2 # r' \<Rightarrow>
          if c = CHR '':'' \<and> isDigit d1 \<and> isDigit d2 then (Some [d1, d2], r') else (None, r)
      | _ \<Rightarrow> (None, r))"

text \<open>
  \<open>parseTimeString\<close> of time-utils.ts. The 12-hour pattern
  \<open>/^(\d{1,2})(?::(\d{2}))?(am|pm)$/\<close> is tried on the trimmed lower-case text, the
  24-hour pattern \<open>/^(\d{1,2}):(\d{2})$/\<close> on the text as given. In both, \<open>\d{1,2}\<close> must
  be the whole leading run of digits, since no digit may follow it.
\<close>

definition parseTimeString :: "string \<Rightarrow> ParsedTime option" where
  "parseTimeString timeStr =
     (let lower = trim (toLowerCase timeStr) in
      if lower = ''noon'' then Some \<lparr>pt_hours = 12, pt_minutes = 0, pt_format = word\<rparr>
      else if lower = ''midnight'' then Some \<lparr>pt_hours = 0, pt_minutes = 0, pt_format = word\<rparr>
      else
        (let ds = takeWhile isDigit lower;
             (ms, r) = optColonMinutes (dropWhile isDigit lower)
         in if 1 \<le> length ds \<and> length ds \<le> 2 \<and> (r = ''am'' \<or> r = ''pm'')
            then
              (let h0 = parseInt ds;
                   m = parseInt (orZero ms);
                   h1 = (if r = ''pm'' \<and> h0 \<noteq> 12 then h0 + 12 else h0);
                   h2 = (if r = ''am'' \<and> h1 = 12 then 0 else h1)
               in Some \<lparr>pt_hours = h2, pt_minutes = m, pt_format = clock12\<rparr>)
            else
              (let ds' = takeWhile isDigit timeStr;
                   (ms', r') = optColonMinutes (dropWhile isDigit timeStr)
               in if 1 \<le> length ds' \<and> length ds' \<le> 2 \<and> ms' \<noteq> None \<and> r' = []
                     \<and> parseInt ds' \<le> 23 \<and> parseInt (orZero ms') \<le> 59
                  then Some \<lparr>pt_hours = parseInt ds', pt_minutes = parseInt (orZero ms'),
                             pt_format = clock24\<rparr>
                  else None)))"

definition showInt :: "int \<Rightarrow> string" where
  "showInt i = (if i < 0 then CHR ''-'' # showNat (nat (- i)) else showNat (nat i))"

function formatTimeString :: "int \<Rightarrow> int \<Rightarrow> timeFormat \<Rightarrow> string" where
  "formatTimeString h m fmt =
     (if h = 12 \<and> m = 0 \<and> fmt = word then ''noon''
      else if h = 0 \<and> m = 0 \<and> fmt = word then ''midnight''
      else if fmt = clock24 then padStart2 (showInt h) @ '':'' @ padStart2 (showInt m)
      else if fmt = clock12 then
        (let ampm = (if h \<ge> 12 then ''pm'' else ''am'');
             d0 = (if h = 0 then 12 else h);
             displayHours = (if d0 > 12 then d0 - 12 else d0)
         in if m = 0 then showInt displayHours @ ampm
            else showInt displayHours @ '':'' @ padStart2 (showInt m) @ ampm)
      else formatTimeString h m clock12)"
  by pat_completeness auto
termination
  by (relation "measure (\<lambda>(h, m, fmt). if fmt = clock12 then 0 else 1)") auto

declare formatTimeString.simps [simp del]

text \<open>The two \<open>while\<close> loops that carry minutes into hours and borrow them back.\<close>

function carryUp :: "int \<Rightarrow> int \<Rightarrow> int \<times> int" where
  "carryUp newMinutes newHours =
     (if newMinutes \<ge> 60 then carryUp (newMinutes - 60) (newHours + 1)
      else (newMinutes, newHours))"
  by pat_completeness auto
termination
  by (relation "measure (\<lambda>(m, h). nat m)") auto

declare carryUp.simps [simp del]

function borrowDown :: "int \<Rightarrow> int \<Rightarrow> int \<times> int" where
  "borrowDown newMinutes newHours =
     (if newMinutes < 0 then borrowDown (newMinutes + 60) (newHours - 1)
      else (newMinutes, newHours))"
  by pat_completeness auto
termination
  by (relation "measure (\<lambda>(m, h). nat (- m))") auto

declare borrowDown.simps [simp del]

text \<open>The remainder operator \<open>%\<close> of JavaScript: the result has the sign of the dividend.\<close>

definition jsRem :: "int \<Rightarrow> int \<Rightarrow> int" where
  "jsRem a b = sgn a * (\<bar>a\<bar> mod \<bar>b\<bar>)"

record TimeStringResult =
  ts_success :: bool
  newTime :: "string option"
  ts_error :: "string option"

definition offsetMinutes :: "TimeOffset \<Rightarrow> int" where
  "offsetMinutes offset = (int (hours offset) * 60 + int (minutes offset)) * sign offset"

definition applyTimeOffsetToTimeString :: "string \<Rightarrow> TimeOffset \<Rightarrow> TimeStringResult" where
  "applyTimeOffsetToTimeString timeStr offset =
     (case parseTimeString timeStr of
        None \<Rightarrow>
          \<lparr>ts_success = False, newTime = None,
           ts_error = Some (''Invalid time format: '' @ timeStr)\<rparr>
      | Some parsed \<Rightarrow>
          (let totalMinutes = offsetMinutes offset;
               (m1, h1) = carryUp (int (pt_minutes parsed) + totalMinutes) (int (pt_hours parsed));
               (newMinutes, h2) = borrowDown m1 h1;
               newHours = jsRem (jsRem h2 24 + 24) 24
           in \<lparr>ts_success = True,
               newTime = Some (formatTimeString newHours newMinutes (pt_format parsed)),
               ts_error = None\<rparr>))"

section \<open>Diagnostics (types.ts)\<close>

record Span =
  sp_line :: nat
  startCol :: int
  endCol :: int

record Diagnostic =
  code :: string
  message :: string
  span :: "Span option"

text \<open>\<open>d.code.startsWith('E')\<close>: the test for an error-class diagnostic.\<close>

definition isErrorDiag :: "Diagnostic \<Rightarrow> bool" where
  "isErrorDiag d = startsWith (code d) ''E''"

section \<open>Line preprocessing (lexer/tokens.ts)\<close>

record LinePreprocessResult =
  pp_hasSpaceAfterDash :: bool
  processedLine :: string
  pp_diagnostics :: "Diagnostic list"

text \<open>
  The pattern \<open>/^(\s*-\s*)/\<close>: all leading white space, a dash, all white space after
  it. The result is the length of the match, if there is one.
\<close>

definition dashPartLength :: "string \<Rightarrow> nat option" where
  "dashPartLength line =
     (let ws1 = takeWhile isSpace line; r = dropWhile isSpace line
      in case r of
           [] \<Rightarrow> None
         | c # r' \<Rightarrow>
             if c = CHR ''-'' then Some (length ws1 + 1 + length (takeWhile isSpace r'))
             else None)"

text \<open>\<open>/^-\s+/\<close> on the dash part: it must begin with the dash itself.\<close>

definition dashThenSpace :: "string \<Rightarrow> bool" where
  "dashThenSpace dashPart =
     (case dashPart of c # d # _ \<Rightarrow> c = CHR ''-'' \<and> isSpace d | _ \<Rightarrow> False)"

definition preprocessLine :: "string \<Rightarrow> nat \<Rightarrow> LinePreprocessResult" where
  "preprocessLine line lineNo =
     (case dashPartLength line of
        None \<Rightarrow> \<lparr>pp_hasSpaceAfterDash = True, processedLine = line, pp_diagnostics = []\<rparr>
      | Some n \<Rightarrow>
          (let dashPart = take n line;
               afterDash = drop n line;
               hasSpaceAfterDash = dashThenSpace dashPart
           in if \<not> hasSpaceAfterDash \<and> afterDash \<noteq> [] \<and> \<not> isSpace (hd afterDash)
              then \<lparr>pp_hasSpaceAfterDash = False,
                    processedLine = dashPart @ '' '' @ afterDash,
                    pp_diagnostics =
                      [\<lparr>code = ''W001-missing-space-after-dash'',
                        message = ''Missing space after dash'',
                        span = Some \<lparr>sp_line = lineNo, startCol = int n,
                                      endCol = int n + 1\<rparr>\<rparr>]\<rparr>
              else \<lparr>pp_hasSpaceAfterDash = True, processedLine = line,
                    pp_diagnostics = []\<rparr>))"

section \<open>The tokenizer (lexer/tokens.ts, lexer/lexer.ts)\<close>

datatype tokenType =
    WhiteSpace | EOL | HashComment | SlashComment | Dash | Bang | Comma | Equals
  | CategoryDouble | CategoryColon | TimeWord | Duration | TimeClock
  | ScratchpadDirective | PlannerDirective | Identifier | Text

record Token =
  tokenType :: tokenType
  image :: string
  startOffset :: nat
  endOffset :: nat
  tok_lineNo :: nat

text \<open>
  Each token pattern is a function giving the length of its match at the start of the
  text, 0 when it does not match there (no pattern matches the empty string).
\<close>

definition mWhiteSpace :: "string \<Rightarrow> nat" where
  "mWhiteSpace s = length (takeWhile (\<lambda>c. c = CHR '' '' \<or> c = CHR 0x09) s)"

definition mEOL :: "string \<Rightarrow> nat" where
  "mEOL s =
     (case s of
        c # r \<Rightarrow>
          if c = CHR 0x0A then 1
          else if c = CHR 0x0D \<and> r \<noteq> [] \<and> hd r = CHR 0x0A then 2
          else 0
      | [] \<Rightarrow> 0)"

definition mHashComment :: "string \<Rightarrow> nat" where
  "mHashComment s =
     (case s of
        c # r \<Rightarrow>
          if c = CHR ''#'' then 1 + length (takeWhile (\<lambda>c. \<not> isLineTerminator c) r) else 0
      | [] \<Rightarrow> 0)"

definition mSlashComment :: "string \<Rightarrow> nat" where
  "mSlashComment s =
     (if startsWith s ''//''
      then 2 + length (takeWhile (\<lambda>c. \<not> isLineTerminator c) (drop 2 s)) else 0)"

definition mLiteral :: "string \<Rightarrow> string \<Rightarrow> nat" where
  "mLiteral lit s = (if startsWith s lit then length lit else 0)"

text \<open>\<open>/(?:noon|midnight)/i\<close>\<close>

definition mTimeWord :: "string \<Rightarrow> nat" where
  "mTimeWord s =
     (if startsWith (toLowerCase s) ''noon'' then 4
      else if startsWith (toLowerCase s) ''midnight'' then 8 else 0)"

text \<open>
  \<open>/\d+h(?:\d{1,2}m)?|\d+m/\<close>: the digit run is greedy and must be followed by the unit;
  after \<open>h\<close>, one or two digits and \<open>m\<close> are taken when they are there.
\<close>

definition mDuration :: "string \<Rightarrow> nat" where
  "mDuration s =
     (let ds = takeWhile isDigit s; r = dropWhile isDigit s
      in if ds = [] \<or> r = [] then 0
         else if hd r = CHR ''h'' then
           (let ds2 = takeWhile isDigit (tl r); r2 = dropWhile isDigit (tl r)
            in if 1 \<le> length ds2 \<and> length ds2 \<le> 2 \<and> r2 \<noteq> [] \<and> hd r2 = CHR ''m''
               then length ds + 1 + length ds2 + 1
               else length ds + 1)
         else if hd r = CHR ''m'' then length ds + 1
         else 0)"

text \<open>
  \<open>/(?:\d{1,2}(?::\d{2})?(?:am|pm)?|\d{2}:\d{2})/i\<close>: the first alternative matches
  whenever a digit is there, so the second is never reached.
\<close>

definition mTimeClock :: "string \<Rightarrow> nat" where
  "mTimeClock s =
     (let n1 = min 2 (length (takeWhile isDigit s))
      in if n1 = 0 then 0
         else
           (let (ms, r) = optColonMinutes (drop n1 s);
                n2 = (if ms = None then 0 else 3);
                ap = toLowerCase (take 2 r);
                n3 = (if ap = ''am'' \<or> ap = ''pm'' then 2 else 0)
            in n1 + n2 + n3))"

definition isIdentChar :: "char \<Rightarrow> bool" where
  "isIdentChar c = (isAlpha c \<or> isDigit c \<or> c = CHR ''_'' \<or> c = CHR ''-'')"

definition mIdentifier :: "string \<Rightarrow> nat" where
  "mIdentifier s = length (takeWhile isIdentChar s)"

text \<open>\<open>/[^\s,:#\r\n]+/\<close>\<close>

definition mText :: "string \<Rightarrow> nat" where
  "mText s =
     length (takeWhile (\<lambda>c. \<not> isSpace c \<and> c \<noteq> CHR '','' \<and> c \<noteq> CHR '':'' \<and> c \<noteq> CHR ''#'') s)"

text \<open>
  The lexer takes the first pattern of \<open>allTokens\<close> that matches at the current position
  (not the longest); a keyword with \<open>longer_alt\<close> yields to the identifier when that
  one is longer.
\<close>

definition matchToken :: "string \<Rightarrow> (tokenType \<times> nat) option" where
  "matchToken s =
     (if 0 < mWhiteSpace s then Some (WhiteSpace, mWhiteSpace s)
      else if 0 < mEOL s then Some (EOL, mEOL s)
      else if 0 < mHashComment s then Some (HashComment, mHashComment s)
      else if 0 < mSlashComment s then Some (SlashComment, mSlashComment s)
      else if 0 < mLiteral ''-'' s then Some (Dash, mLiteral ''-'' s)
      else if 0 < mLiteral ''!'' s then Some (Bang, mLiteral ''!'' s)
      else if 0 < mLiteral '','' s then Some (Comma, mLiteral '','' s)
      else if 0 < mLiteral ''='' s then Some (Equals, mLiteral ''='' s)
      else if 0 < mLiteral ''::'' s then Some (CategoryDouble, mLiteral ''::'' s)
      else if 0 < mLiteral '':'' s then Some (CategoryColon, mLiteral '':'' s)
      else if 0 < mTimeWord s then Some (TimeWord, mTimeWord s)
      else if 0 < mDuration s then Some (Duration, mDuration s)
      else if 0 < mTimeClock s then Some (TimeClock, mTimeClock s)
      else if 0 < mLiteral ''scratchpad'' s then
        (if mLiteral ''scratchpad'' s < mIdentifier s then Some (Identifier, mIdentifier s)
         else Some (ScratchpadDirective, mLiteral ''scratchpad'' s))
      else if 0 < mLiteral ''planner'' s then
        (if mLiteral ''planner'' s < mIdentifier s then Some (Identifier, mIdentifier s)
         else Some (PlannerDirective, mLiteral ''planner'' s))
      else if 0 < mIdentifier s then Some (Identifier, mIdentifier s)
      else if 0 < mText s then Some (Text, mText s)
      else None)"

text \<open>
  \<open>lexer.tokenize\<close>: white space is skipped; where no pattern matches, the lexer records
  an error and drops characters until one does, which is the same as dropping one
  character and going on. The lexer errors are not used by anything modelled here.
\<close>

function lexFrom :: "nat \<Rightarrow> string \<Rightarrow> Token list" where
  "lexFrom off s =
     (if s = [] then []
      else
        (case matchToken s of
           None \<Rightarrow> lexFrom (off + 1) (tl s)
         | Some (ty, n) \<Rightarrow>
             (if ty = WhiteSpace then []
              else [\<lparr>tokenType = ty, image = take n s, startOffset = off,
                     endOffset = off + n - 1, tok_lineNo = 0\<rparr>])
             @ lexFrom (off + n) (drop n s)))"
  by pat_completeness auto
termination
  by (relation "measure (\<lambda>(off, s). length s)")
     (auto simp: matchToken_def split: if_splits)

declare lexFrom.simps [simp del]

text \<open>\<open>String.prototype.split(/\r?\n/)\<close>\<close>

fun splitAcc :: "string \<Rightarrow> string \<Rightarrow> string list" where
  "splitAcc cur [] = [rev cur]"
| "splitAcc cur [c] = (if c = CHR 0x0A then [rev cur, []] else [rev (c # cur)])"
| "splitAcc cur (c # d # cs) =
     (if c = CHR 0x0A then rev cur # splitAcc [] (d # cs)
      else if c = CHR 0x0D \<and> d = CHR 0x0A then rev cur # splitAcc [] cs
      else splitAcc (c # cur) (d # cs))"

definition splitLines :: "string \<Rightarrow> string list" where
  "splitLines text = splitAcc [] text"

record TokenizeResult =
  tokens :: "Token list"
  preprocessResults :: "LinePreprocessResult list"

definition tokenizeLine :: "string \<Rightarrow> nat \<Rightarrow> Token list" where
  "tokenizeLine line lineNo =
     map (\<lambda>t. t\<lparr>tok_lineNo := lineNo\<rparr>) (lexFrom 0 (processedLine (preprocessLine line lineNo)))"

definition tokenizeLines :: "string list \<Rightarrow> TokenizeResult" where
  "tokenizeLines lines =
     \<lparr>tokens = concat (map (\<lambda>(index, line). tokenizeLine line (index + 1)) (enumerate 0 lines)),
      preprocessResults =
        map (\<lambda>(index, line). preprocessLine line (index + 1)) (enumerate 0 lines)\<rparr>"

definition tokenize :: "string \<Rightarrow> TokenizeResult" where
  "tokenize text = tokenizeLines (splitLines text)"

section \<open>Token lookup (lsp/parser-utils.ts)\<close>

record TimeTokenHit =
  hit_timeStr :: string
  hit_start :: nat
  hit_end :: nat
  hit_tokenType :: tokenType

text \<open>The first token that is a \<open>TimeClock\<close> or a \<open>TimeWord\<close>.\<close>

definition findTimeTokenInLine :: "string \<Rightarrow> TimeTokenHit option" where
  "findTimeTokenInLine line =
     (case filter (\<lambda>t. tokenType t = TimeClock \<or> tokenType t = TimeWord) (tokens (tokenize line)) of
        [] \<Rightarrow> None
      | t # _ \<Rightarrow>
          Some \<lparr>hit_timeStr = image t, hit_start = startOffset t, hit_end = endOffset t + 1,
                hit_tokenType = tokenType t\<rparr>)"

record LineFormat =
  lf_valid :: bool
  hasDash :: bool
  hasTime :: bool
  hasDuration :: bool

definition validateTaskLineFormat :: "string \<Rightarrow> LineFormat" where
  "validateTaskLineFormat line =
     (let ts = tokens (tokenize line);
          d = list_ex (\<lambda>t. tokenType t = Dash) ts;
          tm = list_ex (\<lambda>t. tokenType t = TimeClock \<or> tokenType t = TimeWord) ts;
          du = list_ex (\<lambda>t. tokenType t = Duration) ts
      in \<lparr>lf_valid = d, hasDash = d, hasTime = tm, hasDuration = du\<rparr>)"

section \<open>The analysis data model (types.ts)\<close>

text \<open>
  An instant is a number of minutes of local time (a \<open>Date\<close> of the source, whose seconds
  and milliseconds are always 0 here); the local time zone has a fixed offset. A task node
  of the source stores its instants as ISO strings and reads them back with \<open>new Date\<close>;
  the model stores the instant itself. \<open>new Date(text)\<close> and the clock belong to the
  JavaScript runtime and are parameters of the model.
\<close>

type_synonym instant = int

datatype JsDate = ValidDate instant | InvalidDate

datatype JsError = RangeError

datatype LineStatus = Valid | ValidWithWarnings | Invalid

datatype OverlapPolicy = PolicyWarning | PolicyError | PolicyIgnore

datatype Section = planner | scratchpad

record CategoryPath =
  segments :: "string list"

record TaskNode =
  title :: string
  start :: "instant option"
  durationMin :: nat
  finish :: "instant option"
  categories :: "CategoryPath list"
  explicitStart :: bool
  explicitDuration :: bool

record DirectiveNode =
  dn_name :: string
  dn_args :: "(string \<times> string) list"

datatype Node = TaskN TaskNode | DirectiveN DirectiveNode

record ParsedLine =
  pl_id :: string
  pl_raw :: string
  pl_lineNo :: nat
  status :: LineStatus
  pl_diagnostics :: "Diagnostic list"
  node :: "Node option"

record AnalysisContext =
  day :: string
  timezone :: "string option"
  defaultDurationMin :: nat
  overlapPolicy :: OverlapPolicy

record Program =
  pr_context :: AnalysisContext
  pr_lines :: "ParsedLine list"

record ParseOptions =
  today :: "string option"
  opt_timezone :: "string option"

record RawTaskParts =
  time :: "string option"
  duration :: "string option"
  rt_categories :: "string list"
  titleParts :: "string list"

record RawDirectiveParts =
  name :: string
  args :: "(string \<times> string) list"

record ParsedLineRaw =
  lineNo :: nat
  raw :: string
  diagnostics :: "Diagnostic list"
  hasSpaceAfterDash :: bool
  isBlank :: bool
  isComment :: bool
  isScratchpad :: bool
  task :: "RawTaskParts option"
  directive :: "RawDirectiveParts option"

text \<open>What the analyzer takes from the runtime.\<close>

record Env =
  currentDate :: string
  systemTimeZone :: string
  dayStart :: "string \<Rightarrow> JsDate"
  localToday :: instant

section \<open>Plain objects as records of arguments\<close>

text \<open>
  The \<open>args\<close> object of a directive is a list of its own properties in insertion order.
  Assigning a string to \<open>__proto__\<close> creates no property; \<open>Object.values\<close> lists the
  array-index keys first, in ascending order, then the others as inserted.
\<close>

definition objSet :: "(string \<times> string) list \<Rightarrow> string \<Rightarrow> string \<Rightarrow> (string \<times> string) list" where
  "objSet obj k v =
     (if k = ''__proto__'' then obj
      else if map_of obj k \<noteq> None then map (\<lambda>(k', v'). if k' = k then (k', v) else (k', v')) obj
      else obj @ [(k, v)])"

definition isArrayIndex :: "string \<Rightarrow> bool" where
  "isArrayIndex k =
     (k \<noteq> [] \<and> list_all isDigit k \<and> (k = ''0'' \<or> hd k \<noteq> CHR ''0'') \<and> int (parseInt k) < 4294967295)"

definition objectValues :: "(string \<times> string) list \<Rightarrow> string list" where
  "objectValues obj =
     map snd (sort_key (\<lambda>(k, v). parseInt k) (filter (\<lambda>(k, v). isArrayIndex k) obj)
              @ filter (\<lambda>(k, v). \<not> isArrayIndex k) obj)"

definition firstValue :: "(string \<times> string) list \<Rightarrow> string option" where
  "firstValue obj = (case objectValues obj of [] \<Rightarrow> None | v # _ \<Rightarrow> Some v)"

section \<open>Line content (analyzer.ts, \<open>parseLineContent\<close>)\<close>

text \<open>
  \<open>splitTaskParts\<close>: the loop over the characters, with the parts so far, the current
  part and the \<open>inCategory\<close> flag; \<open>nextChar\<close> is the head of the rest.
\<close>

fun splitLoop :: "string list \<Rightarrow> string \<Rightarrow> bool \<Rightarrow> string \<Rightarrow> string list" where
  "splitLoop parts current inCategory [] =
     (if trim current \<noteq> [] then parts @ [trim current] else parts)"
| "splitLoop parts current inCategory (char # rest) =
     (if char = CHR '':'' then splitLoop parts (current @ [char]) True rest
      else if char = CHR '','' \<and> \<not> inCategory then
        splitLoop (if trim current \<noteq> [] then parts @ [trim current] else parts) [] inCategory rest
      else if char = CHR '' '' \<and> \<not> inCategory \<and> trim current \<noteq> [] then
        splitLoop (parts @ [trim current]) [] inCategory rest
      else
        splitLoop parts (current @ [char])
          (if inCategory \<and> char \<noteq> CHR '':'' \<and> (rest = [] \<or> hd rest \<noteq> CHR '':'')
           then False else inCategory)
          rest)"

definition splitTaskParts :: "string \<Rightarrow> string list" where
  "splitTaskParts content = splitLoop [] [] False content"

text \<open>
  \<open>/^(\d{1,2})(?::(\d{2}))?(?:(am|pm))?$/i\<close>: the hour digits, the minute digits and the
  meridiem of a match.
\<close>

definition matchClock :: "string \<Rightarrow> (string \<times> string option \<times> string option) option" where
  "matchClock s =
     (let ds = takeWhile isDigit s;
          (ms, r) = optColonMinutes (dropWhile isDigit s)
      in if 1 \<le> length ds \<and> length ds \<le> 2
            \<and> (r = [] \<or> toLowerCase r = ''am'' \<or> toLowerCase r = ''pm'')
         then Some (ds, ms, if r = [] then None else Some r)
         else None)"

text \<open>
  \<open>isTimePart\<close>: \<open>/^(?:\d{1,2}(?::\d{2})?(?:am|pm)?|\d{2}:\d{2}|noon|midnight)$/i\<close>; every
  text of the second alternative is one of the first.
\<close>

definition isTimePart :: "string \<Rightarrow> bool" where
  "isTimePart part =
     (matchClock part \<noteq> None \<or> toLowerCase part = ''noon'' \<or> toLowerCase part = ''midnight'')"

text \<open>
  \<open>isDurationPart\<close>: \<open>/^\d+h(?:\d{1,2}m)?|\d+m$/\<close>. The alternation binds weaker than
  the anchors: the text begins with digits and \<open>h\<close>, or it ends with a digit and \<open>m\<close>.
\<close>

definition isDurationPart :: "string \<Rightarrow> bool" where
  "isDurationPart part =
     ((takeWhile isDigit part \<noteq> [] \<and> startsWith (dropWhile isDigit part) ''h'')
      \<or> (case rev part of m # d # _ \<Rightarrow> m = CHR ''m'' \<and> isDigit d | _ \<Rightarrow> False))"

text \<open>The segments \<open>[a-zA-Z0-9_-]+(?:::[a-zA-Z0-9_-]+)*$\<close> of a category path.\<close>

fun catSegs :: "bool \<Rightarrow> string \<Rightarrow> bool" where
  "catSegs nonEmpty [] = nonEmpty"
| "catSegs nonEmpty [c] = isIdentChar c"
| "catSegs nonEmpty (c # d # cs) =
     (if isIdentChar c then catSegs True (d # cs)
      else if nonEmpty \<and> c = CHR '':'' \<and> d = CHR '':'' then catSegs False cs
      else False)"

definition isCategoryPart :: "string \<Rightarrow> bool" where
  "isCategoryPart part = (case part of c # r \<Rightarrow> c = CHR '':'' \<and> catSegs False r | [] \<Rightarrow> False)"

text \<open>\<open>/^\d+[a-zA-Z]$/\<close> without being a duration.\<close>

definition isLikelyBadDuration :: "string \<Rightarrow> bool" where
  "isLikelyBadDuration part =
     ((takeWhile isDigit part \<noteq> []
         \<and> (case dropWhile isDigit part of [c] \<Rightarrow> isAlpha c | _ \<Rightarrow> False))
      \<and> \<not> isDurationPart part)"

definition isLikelyBadCategory :: "string \<Rightarrow> bool" where
  "isLikelyBadCategory part = (startsWith part '':'' \<and> \<not> isCategoryPart part)"

definition lineSpan :: "nat \<Rightarrow> string \<Rightarrow> Span option" where
  "lineSpan lno text = Some \<lparr>sp_line = lno, startCol = 1, endCol = int (length text) + 1\<rparr>"

definition parseCategory :: "string \<Rightarrow> nat \<Rightarrow> Diagnostic + string" where
  "parseCategory part lno =
     (if endsWith part ''::'' \<or> strIncludes part '':::''
      then Inl \<lparr>code = ''E050-bad-category'', message = ''Invalid category format'',
                span = lineSpan lno part\<rparr>
      else Inr part)"

text \<open>One round of the loop over the parts of a task line.\<close>

definition classifyPart ::
  "string \<Rightarrow> nat \<Rightarrow> string \<Rightarrow> RawTaskParts \<times> Diagnostic list \<Rightarrow> RawTaskParts \<times> Diagnostic list" where
  "classifyPart line lno part acc =
     (let (task, diags) = acc; trimmedPart = trim part in
      if trimmedPart = [] then (task, diags)
      else if isTimePart trimmedPart then
        (if time task \<noteq> None
         then (task, diags @ [\<lparr>code = ''W030-unknown-part'',
                               message = ''Multiple time values found'',
                               span = lineSpan lno line\<rparr>])
         else (task\<lparr>time := Some trimmedPart\<rparr>, diags))
      else if isDurationPart trimmedPart then
        (if duration task \<noteq> None
         then (task, diags @ [\<lparr>code = ''W030-unknown-part'',
                               message = ''Multiple duration values found'',
                               span = lineSpan lno line\<rparr>])
         else (task\<lparr>duration := Some trimmedPart\<rparr>, diags))
      else if isCategoryPart trimmedPart then
        (case parseCategory trimmedPart lno of
           Inl err \<Rightarrow> (task, diags @ [err])
         | Inr category \<Rightarrow> (task\<lparr>rt_categories := rt_categories task @ [category]\<rparr>, diags))
      else if isLikelyBadCategory trimmedPart then
        (task\<lparr>titleParts := titleParts task @ [trimmedPart]\<rparr>,
         diags @ [\<lparr>code = ''E050-bad-category'',
                   message = ''Invalid category format: '' @ trimmedPart,
                   span = lineSpan lno line\<rparr>])
      else if isLikelyBadDuration trimmedPart then
        (task\<lparr>titleParts := titleParts task @ [trimmedPart]\<rparr>,
         diags @ [\<lparr>code = ''E010-bad-duration'',
                   message = ''Invalid duration format: '' @ trimmedPart,
                   span = lineSpan lno line\<rparr>])
      else (task\<lparr>titleParts := titleParts task @ [trimmedPart]\<rparr>, diags))"

text \<open>
  \<open>content.split(/\s*[#\/]/)[0]\<close>: the text before the first \<open>#\<close> or \<open>/\<close>, without the
  white space that ends it; the whole text when neither occurs.
\<close>

definition isCommentMark :: "char \<Rightarrow> bool" where
  "isCommentMark c = (c = CHR ''#'' \<or> c = CHR ''/'')"

definition beforeCommentOf :: "string \<Rightarrow> string" where
  "beforeCommentOf content =
     (if list_ex isCommentMark content
      then rev (dropWhile isSpace (rev (takeWhile (\<lambda>c. \<not> isCommentMark c) content)))
      else content)"

text \<open>\<open>lastIndexOf\<close> of a character, \<open>-1\<close> when it does not occur.\<close>

definition lastIndexOf :: "string \<Rightarrow> char \<Rightarrow> int" where
  "lastIndexOf s c =
     (if c \<in> set s then int (length s) - 1 - int (length (takeWhile (\<lambda>x. x \<noteq> c) (rev s)))
      else -1)"

text \<open>
  \<open>argsStr.matchAll(/(\w+)=([^\s,]+)/g)\<close>: a run of word characters that is followed by
  \<open>=\<close> and at least one value character is a key; a run that is not followed so holds
  no match, whichever of its characters the search starts from.
\<close>

function matchAllKV :: "string \<Rightarrow> (string \<times> string) list" where
  "matchAllKV s =
     (case s of
        [] \<Rightarrow> []
      | c # cs \<Rightarrow>
          if isWordChar c then
            (let k = takeWhile isWordChar s; r = dropWhile isWordChar s;
                 v = takeWhile (\<lambda>x. \<not> isSpace x \<and> x \<noteq> CHR '','') (drop 1 r)
             in if startsWith r ''='' \<and> v \<noteq> []
                then (k, v) # matchAllKV (drop (1 + length v) r)
                else matchAllKV r)
          else matchAllKV cs)"
  by pat_completeness auto
termination
proof (relation "measure length")
  fix s r v :: string and c :: char and cs k :: string
  assume s: "s = c # cs" and c: "isWordChar c" and r: "r = dropWhile isWordChar s"
  have le: "length r < length s"
    unfolding r s using c by (simp add: le_imp_less_Suc length_dropWhile_le)
  show "(r, s) \<in> measure length" using le by simp
  show "(drop (1 + length v) r, s) \<in> measure length" using le by simp
qed auto

declare matchAllKV.simps [simp del]

record LineContent =
  lc_task :: "RawTaskParts option"
  lc_directive :: "RawDirectiveParts option"
  lc_diagnostics :: "Diagnostic list"

text \<open>
  The two patterns that find the content of a line: \<open>/^\s*-\s*(.*)$/\<close> and
  \<open>/^\s*!(.*)$/\<close>. The dot matches no line terminator and \<open>$\<close> is the end of the text,
  so the rest of the line must hold none.
\<close>

definition dashContent :: "string \<Rightarrow> string option" where
  "dashContent line =
     (case dropWhile isSpace line of
        [] \<Rightarrow> None
      | c # r \<Rightarrow>
          if c = CHR ''-'' \<and> \<not> list_ex isLineTerminator (dropWhile isSpace r)
          then Some (dropWhile isSpace r) else None)"

definition bangContent :: "string \<Rightarrow> string option" where
  "bangContent line =
     (case dropWhile isSpace line of
        [] \<Rightarrow> None
      | c # r \<Rightarrow>
          if c = CHR ''!'' \<and> \<not> list_ex isLineTerminator r then Some r else None)"

text \<open>\<open>/^!(\w+)\s*(.*)/\<close> on the content: the directive name and the argument text.\<close>

definition directiveHead :: "string \<Rightarrow> (string \<times> string) option" where
  "directiveHead content =
     (case content of
        [] \<Rightarrow> None
      | c # r \<Rightarrow>
          if c = CHR ''!'' \<and> takeWhile isWordChar r \<noteq> []
          then Some (takeWhile isWordChar r,
                     takeWhile (\<lambda>x. \<not> isLineTerminator x)
                       (dropWhile isSpace (dropWhile isWordChar r)))
          else None)"

definition directiveArgs :: "string \<Rightarrow> string \<Rightarrow> (string \<times> string) list" where
  "directiveArgs nm argsStr =
     (if trim argsStr = [] then []
      else
        (let kv = foldl (\<lambda>obj (k, v). objSet obj k v) [] (matchAllKV argsStr)
         in if kv = [] then objSet [] nm (trim argsStr) else kv))"

definition trailingComma :: "string \<Rightarrow> nat \<Rightarrow> Diagnostic list" where
  "trailingComma content lno =
     (let beforeComment = beforeCommentOf content
      in if endsWith (trim beforeComment) '',''
         then [\<lparr>code = ''W005-trailing-comma'', message = ''Trailing comma found'',
                 span = Some \<lparr>sp_line = lno,
                               startCol = lastIndexOf beforeComment CHR '','' + 1,
                               endCol = lastIndexOf beforeComment CHR '','' + 2\<rparr>\<rparr>]
         else [])"

definition parseTaskContent :: "string \<Rightarrow> nat \<Rightarrow> string \<Rightarrow> LineContent" where
  "parseTaskContent line lno content =
     (let (task, diags) =
            foldl (\<lambda>acc part. classifyPart line lno part acc)
              (\<lparr>time = None, duration = None, rt_categories = [], titleParts = []\<rparr>, [])
              (splitTaskParts content)
      in \<lparr>lc_task = Some task, lc_directive = None,
          lc_diagnostics = diags @ trailingComma content lno\<rparr>)"

definition parseLineContent :: "string \<Rightarrow> nat \<Rightarrow> Section \<Rightarrow> LineContent" where
  "parseLineContent line lno currentSection =
     (let content =
            (case dashContent line of
               Some c \<Rightarrow> Some c
             | None \<Rightarrow> (case bangContent line of Some r \<Rightarrow> Some (CHR ''!'' # r) | None \<Rightarrow> None))
      in case content of
           None \<Rightarrow> \<lparr>lc_task = None, lc_directive = None, lc_diagnostics = []\<rparr>
         | Some content \<Rightarrow>
             (case directiveHead content of
                Some (nm, argsStr) \<Rightarrow>
                  if nm = ''scratchpad'' \<or> nm = ''planner''
                  then \<lparr>lc_task = None, lc_directive = Some \<lparr>name = nm, args = []\<rparr>,
                        lc_diagnostics = []\<rparr>
                  else \<lparr>lc_task = None,
                        lc_directive = Some \<lparr>name = nm, args = directiveArgs nm argsStr\<rparr>,
                        lc_diagnostics = []\<rparr>
              | None \<Rightarrow>
                  if currentSection = scratchpad
                  then \<lparr>lc_task = None, lc_directive = None, lc_diagnostics = []\<rparr>
                  else parseTaskContent line lno content))"

section \<open>The analyzer (analyzer.ts, class \<open>DayPlanAnalyzer\<close>)\<close>

text \<open>The fields of an analyzer instance.\<close>

record Analyzer =
  an_context :: AnalysisContext
  cursorTime :: "instant option"
  tasks :: "TaskNode list"
  currentSection :: Section

definition newAnalyzer :: "Env \<Rightarrow> ParseOptions \<Rightarrow> Analyzer" where
  "newAnalyzer env options =
     \<lparr>an_context =
        \<lparr>day = (case today options of
                  Some t \<Rightarrow> if t \<noteq> [] then t else currentDate env
                | None \<Rightarrow> currentDate env),
         timezone = Some (case opt_timezone options of
                            Some z \<Rightarrow> if z \<noteq> [] then z else systemTimeZone env
                          | None \<Rightarrow> systemTimeZone env),
         defaultDurationMin = 30,
         overlapPolicy = PolicyWarning\<rparr>,
      cursorTime = None, tasks = [], currentSection = planner\<rparr>"

text \<open>
  \<open>parseTime\<close>. The value of the source is a \<open>Date\<close> of the current day set to the parsed
  hours and minutes, of which only \<open>getHours()\<close> and \<open>getMinutes()\<close> are read afterwards:
  the model keeps these two, an excess of hours or minutes carried over as
  \<open>setHours\<close> does.
\<close>

definition parseTime :: "string \<Rightarrow> nat \<Rightarrow> Diagnostic + (nat \<times> nat)" where
  "parseTime timeStr lno =
     (if toLowerCase timeStr = ''noon'' then Inr (12, 0)
      else if toLowerCase timeStr = ''midnight'' then Inr (0, 0)
      else
        (case matchClock timeStr of
           None \<Rightarrow>
             Inl \<lparr>code = ''E001-bad-time'', message = ''Invalid time format: '' @ timeStr,
                  span = lineSpan lno timeStr\<rparr>
         | Some (ds, ms, ampm) \<Rightarrow>
             (let h0 = parseInt ds;
                  m = parseInt (orZero ms);
                  ap = map_option toLowerCase ampm;
                  h = (if ap = Some ''pm'' \<and> h0 \<noteq> 12 then h0 + 12
                       else if ap = Some ''am'' \<and> h0 = 12 then 0 else h0);
                  total = h * 60 + m
              in Inr ((total div 60) mod 24, total mod 60))))"

text \<open>\<open>parseDuration\<close>: \<open>/^(?:(\d+)h)?(?:(\d+)m)?$/\<close>\<close>

definition parseDuration :: "string \<Rightarrow> nat \<Rightarrow> Diagnostic + nat" where
  "parseDuration durationStr lno =
     (let (hoursStr, r1) = optUnit CHR ''h'' durationStr;
          (minutesStr, r2) = optUnit CHR ''m'' r1
      in if r2 \<noteq> []
         then Inl \<lparr>code = ''E010-bad-duration'',
                   message = ''Invalid duration format: '' @ durationStr,
                   span = lineSpan lno durationStr\<rparr>
         else Inr (parseInt (orZero hoursStr) * 60 + parseInt (orZero minutesStr)))"

text \<open>\<open>String.prototype.split('::')\<close>\<close>

fun splitColons :: "string \<Rightarrow> string \<Rightarrow> string list" where
  "splitColons cur [] = [rev cur]"
| "splitColons cur [c] = [rev (c # cur)]"
| "splitColons cur (c # d # cs) =
     (if c = CHR '':'' \<and> d = CHR '':'' then rev cur # splitColons [] cs
      else splitColons (c # cur) (d # cs))"

definition parseCategories :: "string list \<Rightarrow> nat \<Rightarrow> CategoryPath list \<times> Diagnostic list" where
  "parseCategories cats lno =
     foldl (\<lambda>(result, errors) category.
              if startsWith category '':'' then
                (let segs = splitColons [] (drop 1 category)
                 in if list_ex (\<lambda>s. trim s = []) segs
                    then (result,
                          errors @ [\<lparr>code = ''E050-bad-category'',
                                      message = ''Empty category segment'',
                                      span = lineSpan lno category\<rparr>])
                    else (result @ [\<lparr>segments = segs\<rparr>], errors))
              else (result, errors))
           ([], []) cats"

text \<open>\<open>/^\d{4}-\d{2}-\d{2}$/\<close>\<close>

definition isDayFormat :: "string \<Rightarrow> bool" where
  "isDayFormat s =
     (length s = 10 \<and> list_all isDigit (take 4 s) \<and> s ! 4 = CHR ''-''
      \<and> list_all isDigit (take 2 (drop 5 s)) \<and> s ! 7 = CHR ''-''
      \<and> list_all isDigit (drop 8 s))"

definition parsePolicy :: "string \<Rightarrow> OverlapPolicy option" where
  "parsePolicy p =
     (if p = ''warning'' then Some PolicyWarning
      else if p = ''error'' then Some PolicyError
      else if p = ''ignore'' then Some PolicyIgnore
      else None)"

definition truthy :: "string option \<Rightarrow> bool" where
  "truthy v = (case v of None \<Rightarrow> False | Some s \<Rightarrow> s \<noteq> [])"

text \<open>
  \<open>applyDirective\<close>: the new state of the analyzer, or the message of the \<open>Error\<close> that is
  thrown. Nothing is assigned before a throw.
\<close>

definition applyDirective :: "Analyzer \<Rightarrow> RawDirectiveParts \<Rightarrow> string + Analyzer" where
  "applyDirective st d =
     (if name d = ''scratchpad'' then Inr (st\<lparr>currentSection := scratchpad\<rparr>)
      else if name d = ''planner'' then Inr (st\<lparr>currentSection := planner\<rparr>)
      else if name d = ''default'' then
        (if truthy (map_of (args d) ''duration'') then
           (case parseDuration (the (map_of (args d) ''duration'')) 1 of
              Inr v \<Rightarrow>
                if v \<noteq> 0 then Inr (st\<lparr>an_context := (an_context st)\<lparr>defaultDurationMin := v\<rparr>\<rparr>)
                else Inl ''Invalid default duration''
            | Inl err \<Rightarrow> Inl ''Invalid default duration'')
         else Inr st)
      else if name d = ''policy'' then
        (if truthy (map_of (args d) ''overlaps'') then
           (case parsePolicy (the (map_of (args d) ''overlaps'')) of
              Some p \<Rightarrow> Inr (st\<lparr>an_context := (an_context st)\<lparr>overlapPolicy := p\<rparr>\<rparr>)
            | None \<Rightarrow> Inl ''Invalid overlap policy'')
         else Inr st)
      else if name d = ''day'' then
        (case firstValue (args d) of
           Some v \<Rightarrow>
             if isDayFormat v then Inr (st\<lparr>an_context := (an_context st)\<lparr>day := v\<rparr>\<rparr>)
             else Inl ''Invalid day format, expected YYYY-MM-DD''
         | None \<Rightarrow> Inl ''Invalid day format, expected YYYY-MM-DD'')
      else if name d = ''tz'' then
        Inr (st\<lparr>an_context := (an_context st)\<lparr>timezone := firstValue (args d)\<rparr>\<rparr>)
      else Inl (''Unknown directive: '' @ name d))"

text \<open>\<open>try { this.applyDirective(d) } catch { }\<close>\<close>

definition applyDirectiveQuietly :: "Analyzer \<Rightarrow> RawDirectiveParts \<Rightarrow> Analyzer" where
  "applyDirectiveQuietly st d = (case applyDirective st d of Inr st' \<Rightarrow> st' | Inl err \<Rightarrow> st)"

text \<open>
  \<open>resolveTimeToDate\<close>: the day of the context at the given hours and minutes. The day is
  never empty; the source would take the current day if it were.
\<close>

definition resolveTimeToDate :: "Env \<Rightarrow> AnalysisContext \<Rightarrow> nat \<times> nat \<Rightarrow> JsDate" where
  "resolveTimeToDate env ctx hm =
     (case (if day ctx \<noteq> [] then dayStart env (day ctx) else ValidDate (localToday env)) of
        InvalidDate \<Rightarrow> InvalidDate
      | ValidDate t \<Rightarrow> ValidDate (t + int (fst hm) * 60 + int (snd hm)))"

definition overlaps :: "instant \<Rightarrow> instant \<Rightarrow> TaskNode \<Rightarrow> bool" where
  "overlaps s e t =
     (case (start t, finish t) of
        (Some taskStart, Some taskEnd) \<Rightarrow> s < taskEnd \<and> e > taskStart
      | _ \<Rightarrow> False)"

text \<open>\<open>checkOverlap\<close>; a comparison with an invalid date is false.\<close>

definition checkOverlap :: "Analyzer \<Rightarrow> JsDate \<Rightarrow> JsDate \<Rightarrow> bool" where
  "checkOverlap st s e =
     (case (s, e) of
        (ValidDate s', ValidDate e') \<Rightarrow> list_ex (overlaps s' e') (tasks st)
      | _ \<Rightarrow> False)"

text \<open>\<open>Date.prototype.toISOString\<close> throws a \<open>RangeError\<close> on an invalid date.\<close>

definition toISOString :: "JsDate option \<Rightarrow> JsError + instant option" where
  "toISOString d =
     (case d of
        None \<Rightarrow> Inr None
      | Some InvalidDate \<Rightarrow> Inl RangeError
      | Some (ValidDate t) \<Rightarrow> Inr (Some t))"

definition addMinutes :: "nat \<Rightarrow> JsDate \<Rightarrow> JsDate" where
  "addMinutes n d = (case d of InvalidDate \<Rightarrow> InvalidDate | ValidDate t \<Rightarrow> ValidDate (t + int n))"

definition statusOf :: "Diagnostic list \<Rightarrow> LineStatus" where
  "statusOf ds =
     (if list_ex isErrorDiag ds then Invalid
      else if ds \<noteq> [] then ValidWithWarnings else Valid)"

text \<open>\<open>generateLineId\<close>: a 32-bit hash of the text, with the index of the line.\<close>

definition toInt32 :: "int \<Rightarrow> int" where
  "toInt32 x = (x + 2147483648) mod 4294967296 - 2147483648"

definition hexDigit :: "int \<Rightarrow> char" where
  "hexDigit d = (if d < 10 then char_of (nat (48 + d)) else char_of (nat (87 + d)))"

text \<open>\<open>toString(16)\<close> of a non-negative integer.\<close>

function showHex :: "int \<Rightarrow> string" where
  "showHex n = (if n < 16 then [hexDigit n] else showHex (n div 16) @ [hexDigit (n mod 16)])"
  by pat_completeness auto
termination
  by (relation "measure nat") auto

declare showHex.simps [simp del]

definition generateLineId :: "string \<Rightarrow> nat \<Rightarrow> string" where
  "generateLineId text index =
     (let hash = foldl (\<lambda>acc char. toInt32 (toInt32 (acc * 32) - acc + int (of_char char))) 0 text
      in ''line_'' @ showNat index @ ''_'' @ showHex \<bar>hash\<bar>)"

definition joinWith :: "string \<Rightarrow> string list \<Rightarrow> string" where
  "joinWith sep xs = (case xs of [] \<Rightarrow> [] | x # r \<Rightarrow> x @ concat (map (\<lambda>y. sep @ y) r))"

text \<open>
  \<open>analyzeTask\<close>, in the steps that the source marks: the parsed components and their
  errors, the start, the duration, the overlap check, the node, the cursor.
\<close>

definition timeValue :: "ParsedLineRaw \<Rightarrow> RawTaskParts \<Rightarrow> (nat \<times> nat) option" where
  "timeValue rawLine tk =
     (case time tk of
        None \<Rightarrow> None
      | Some t \<Rightarrow> (case parseTime t (lineNo rawLine) of Inr v \<Rightarrow> Some v | Inl err \<Rightarrow> None))"

definition durationValue :: "ParsedLineRaw \<Rightarrow> RawTaskParts \<Rightarrow> nat option" where
  "durationValue rawLine tk =
     (case duration tk of
        None \<Rightarrow> None
      | Some d \<Rightarrow> (case parseDuration d (lineNo rawLine) of Inr v \<Rightarrow> Some v | Inl err \<Rightarrow> None))"

definition collectParseErrors :: "ParsedLineRaw \<Rightarrow> RawTaskParts \<Rightarrow> Diagnostic list" where
  "collectParseErrors rawLine tk =
     diagnostics rawLine
     @ (case time tk of
          None \<Rightarrow> []
        | Some t \<Rightarrow> (case parseTime t (lineNo rawLine) of Inl err \<Rightarrow> [err] | Inr v \<Rightarrow> []))
     @ (case duration tk of
          None \<Rightarrow> []
        | Some d \<Rightarrow> (case parseDuration d (lineNo rawLine) of Inl err \<Rightarrow> [err] | Inr v \<Rightarrow> []))
     @ snd (parseCategories (rt_categories tk) (lineNo rawLine))"

text \<open>The start, whether it is explicit, and the diagnostic of a missing start.\<close>

definition determineStart ::
  "Env \<Rightarrow> Analyzer \<Rightarrow> ParsedLineRaw \<Rightarrow> RawTaskParts \<Rightarrow> JsDate option \<times> bool \<times> Diagnostic list" where
  "determineStart env st rawLine tk =
     (case timeValue rawLine tk of
        Some v \<Rightarrow> (Some (resolveTimeToDate env (an_context st) v), True, [])
      | None \<Rightarrow>
          (case cursorTime st of
             Some c \<Rightarrow> (Some (ValidDate c), False, [])
           | None \<Rightarrow>
               (None, False,
                [\<lparr>code = ''E020-missing-start-first-line'',
                  message = ''First task must have an explicit start time'',
                  span = lineSpan (lineNo rawLine) (raw rawLine)\<rparr>])))"

definition overlapDiagnostic ::
  "Analyzer \<Rightarrow> ParsedLineRaw \<Rightarrow> JsDate option \<Rightarrow> JsDate option \<Rightarrow> Diagnostic list" where
  "overlapDiagnostic st rawLine startDate endDate =
     (case (startDate, endDate) of
        (Some s, Some e) \<Rightarrow>
          if overlapPolicy (an_context st) \<noteq> PolicyIgnore \<and> checkOverlap st s e
          then [\<lparr>code = (if overlapPolicy (an_context st) = PolicyError
                          then ''E030-overlap'' else ''W010-overlap''),
                  message = ''Task overlaps with previous task'',
                  span = lineSpan (lineNo rawLine) (raw rawLine)\<rparr>]
          else []
      | _ \<Rightarrow> [])"

definition taskTitle :: "RawTaskParts \<Rightarrow> string" where
  "taskTitle tk =
     (let joined = trim (joinWith '' '' (titleParts tk))
      in if joined \<noteq> [] then joined else ''Untitled'')"

definition analyzeTask ::
  "Env \<Rightarrow> Analyzer \<Rightarrow> ParsedLineRaw \<Rightarrow> RawTaskParts \<Rightarrow> string \<Rightarrow> JsError + (Analyzer \<times> ParsedLine)" where
  "analyzeTask env st rawLine tk ident =
     (let (startDate, explicit, missing) = determineStart env st rawLine tk;
          dur = (case durationValue rawLine tk of
                   Some v \<Rightarrow> v
                 | None \<Rightarrow> defaultDurationMin (an_context st));
          endDate = map_option (addMinutes dur) startDate;
          ds = collectParseErrors rawLine tk @ missing
               @ overlapDiagnostic st rawLine startDate endDate
      in case toISOString startDate of
           Inl err \<Rightarrow> Inl err
         | Inr startIso \<Rightarrow>
             (case toISOString endDate of
                Inl err \<Rightarrow> Inl err
              | Inr endIso \<Rightarrow>
                  (let taskNode =
                         \<lparr>title = taskTitle tk,
                          start = startIso, durationMin = dur, finish = endIso,
                          categories = fst (parseCategories (rt_categories tk) (lineNo rawLine)),
                          explicitStart = explicit,
                          explicitDuration = (durationValue rawLine tk \<noteq> None)\<rparr>;
                       hasErrors = list_ex isErrorDiag ds;
                       st' = (if \<not> hasErrors \<and> endIso \<noteq> None
                              then st\<lparr>cursorTime := endIso, tasks := tasks st @ [taskNode]\<rparr>
                              else st)
                   in Inr (st',
                           \<lparr>pl_id = ident, pl_raw = raw rawLine, pl_lineNo = lineNo rawLine,
                            status = (if hasErrors then Invalid
                                      else if ds \<noteq> [] then ValidWithWarnings else Valid),
                            pl_diagnostics = ds, node = Some (TaskN taskNode)\<rparr>))))"

definition analyzeDirective ::
  "Analyzer \<Rightarrow> ParsedLineRaw \<Rightarrow> RawDirectiveParts \<Rightarrow> string \<Rightarrow> Analyzer \<times> ParsedLine" where
  "analyzeDirective st rawLine d ident =
     (let (st', ds) =
            (case applyDirective st d of
               Inr st' \<Rightarrow> (st', diagnostics rawLine)
             | Inl msg \<Rightarrow>
                 (st, diagnostics rawLine
                      @ [\<lparr>code = ''E040-unknown-directive'', message = ''Error: '' @ msg,
                          span = lineSpan (lineNo rawLine) (raw rawLine)\<rparr>]))
      in (st',
          \<lparr>pl_id = ident, pl_raw = raw rawLine, pl_lineNo = lineNo rawLine,
           status = statusOf ds, pl_diagnostics = ds,
           node = Some (DirectiveN \<lparr>dn_name = name d, dn_args = args d\<rparr>)\<rparr>))"

definition plainLine :: "ParsedLineRaw \<Rightarrow> string \<Rightarrow> ParsedLine" where
  "plainLine rawLine ident =
     \<lparr>pl_id = ident, pl_raw = raw rawLine, pl_lineNo = lineNo rawLine, status = Valid,
      pl_diagnostics = diagnostics rawLine, node = None\<rparr>"

definition analyzeLine ::
  "Env \<Rightarrow> Analyzer \<Rightarrow> ParsedLineRaw \<Rightarrow> nat \<Rightarrow> JsError + (Analyzer \<times> ParsedLine)" where
  "analyzeLine env st rawLine index =
     (let ident = generateLineId (raw rawLine) index in
      if isBlank rawLine \<or> isComment rawLine then Inr (st, plainLine rawLine ident)
      else
        (case directive rawLine of
           Some d \<Rightarrow> Inr (analyzeDirective st rawLine d ident)
         | None \<Rightarrow>
             (case task rawLine of
                Some tk \<Rightarrow> analyzeTask env st rawLine tk ident
              | None \<Rightarrow>
                  if isScratchpad rawLine then Inr (st, plainLine rawLine ident)
                  else Inr (st, plainLine rawLine ident))))"

text \<open>\<open>/^\s*(#|\/\/)/\<close>\<close>

definition commentLine :: "string \<Rightarrow> bool" where
  "commentLine line =
     (startsWith (dropWhile isSpace line) ''#'' \<or> startsWith (dropWhile isSpace line) ''//'')"

text \<open>
  One round of the loop of \<open>parseLinesToRaw\<close>: the raw record of a line and the section
  it leaves. \<open>parseLineContent\<close> raises no exception, so the handler around it is never
  entered.
\<close>

definition parseLineToRaw :: "Section \<Rightarrow> nat \<Rightarrow> string \<Rightarrow> ParsedLineRaw \<times> Section" where
  "parseLineToRaw sec index line =
     (let lno = index + 1;
          preprocessResult = preprocessLine line lno;
          rawLine = \<lparr>lineNo = lno, raw = line, diagnostics = pp_diagnostics preprocessResult,
                     hasSpaceAfterDash = pp_hasSpaceAfterDash preprocessResult,
                     isBlank = (trim line = []), isComment = commentLine line,
                     isScratchpad = False, task = None, directive = None\<rparr>
      in if \<not> isBlank rawLine \<and> \<not> isComment rawLine
            \<and> (startsWith (trim line) ''-'' \<or> startsWith (trim line) ''!'')
         then
           (let lineContent = parseLineContent line lno sec;
                sec' = (case lc_directive lineContent of
                          Some d \<Rightarrow>
                            if name d = ''scratchpad'' then scratchpad
                            else if name d = ''planner'' then planner else sec
                        | None \<Rightarrow> sec)
            in (rawLine\<lparr>directive := lc_directive lineContent,
                        task := lc_task lineContent,
                        isScratchpad := (lc_task lineContent = None
                                         \<and> lc_directive lineContent = None
                                         \<and> sec' = scratchpad),
                        diagnostics := diagnostics rawLine @ lc_diagnostics lineContent\<rparr>,
                sec'))
         else (rawLine, sec))"

fun parseLinesFrom :: "Section \<Rightarrow> nat \<Rightarrow> string list \<Rightarrow> ParsedLineRaw list \<times> Section" where
  "parseLinesFrom sec index [] = ([], sec)"
| "parseLinesFrom sec index (line # rest) =
     (let (rawLine, sec') = parseLineToRaw sec index line;
          (rawLines, sec'') = parseLinesFrom sec' (index + 1) rest
      in (rawLine # rawLines, sec''))"

definition parseLinesToRaw :: "Analyzer \<Rightarrow> string list \<Rightarrow> ParsedLineRaw list \<times> Analyzer" where
  "parseLinesToRaw st lines =
     (let (rawLines, sec) = parseLinesFrom (currentSection st) 0 lines
      in (rawLines, st\<lparr>currentSection := sec\<rparr>))"

text \<open>The first pass: every directive is applied, an error is swallowed.\<close>

definition firstPass :: "Analyzer \<Rightarrow> ParsedLineRaw list \<Rightarrow> Analyzer" where
  "firstPass st rawLines =
     foldl (\<lambda>s rawLine. case directive rawLine of Some d \<Rightarrow> applyDirectiveQuietly s d | None \<Rightarrow> s)
       st rawLines"

text \<open>The second pass: \<open>rawLines.map(analyzeLine)\<close>, the analyzer threaded through.\<close>

fun secondPass ::
  "Env \<Rightarrow> Analyzer \<Rightarrow> nat \<Rightarrow> ParsedLineRaw list \<Rightarrow> JsError + (Analyzer \<times> ParsedLine list)" where
  "secondPass env st index [] = Inr (st, [])"
| "secondPass env st index (rawLine # rest) =
     (case analyzeLine env st rawLine index of
        Inl err \<Rightarrow> Inl err
      | Inr (st', line) \<Rightarrow>
          (case secondPass env st' (index + 1) rest of
             Inl err \<Rightarrow> Inl err
           | Inr (st'', ls) \<Rightarrow> Inr (st'', line # ls)))"

text \<open>
  \<open>analyze\<close>. The tokens of the whole text are also given to the grammar recognizer,
  whose result the analyzer does not use.
\<close>

definition analyze :: "Env \<Rightarrow> Analyzer \<Rightarrow> string \<Rightarrow> JsError + (Analyzer \<times> Program)" where
  "analyze env st source =
     (let (rawLines, st1) = parseLinesToRaw st (splitLines source);
          st2 = firstPass st1 rawLines
      in case secondPass env st2 0 rawLines of
           Inl err \<Rightarrow> Inl err
         | Inr (st3, ls) \<Rightarrow> Inr (st3, \<lparr>pr_context = an_context st3, pr_lines = ls\<rparr>))"

text \<open>\<open>parseAndAnalyze\<close> of index.ts: a new analyzer for every text.\<close>

definition parseAndAnalyze :: "Env \<Rightarrow> string \<Rightarrow> ParseOptions \<Rightarrow> JsError + Program" where
  "parseAndAnalyze env source options =
     (case analyze env (newAnalyzer env options) source of
        Inl err \<Rightarrow> Inl err
      | Inr (st, program) \<Rightarrow> Inr program)"

section \<open>Time shifting (lsp/commands/time-shift.ts)\<close>

record TimeShiftResult =
  success :: bool
  newLineContent :: "string option"
  shiftError :: "string option"
  affectedLines :: "string list option"

definition shiftFailure :: "string option \<Rightarrow> TimeShiftResult" where
  "shiftFailure msg =
     \<lparr>success = False, newLineContent = None, shiftError = msg, affectedLines = None\<rparr>"

definition shiftSuccess :: "string \<Rightarrow> TimeShiftResult" where
  "shiftSuccess newLine =
     \<lparr>success = True, newLineContent = Some newLine, shiftError = None, affectedLines = None\<rparr>"

text \<open>\<open>formatTimeForInsertion\<close>, on the local hours and minutes of the instant.\<close>

definition formatTimeForInsertion :: "instant \<Rightarrow> string" where
  "formatTimeForInsertion date =
     (let h = (date div 60) mod 24; m = date mod 60 in
      if h = 12 \<and> m = 0 then ''noon''
      else if h = 0 \<and> m = 0 then ''midnight''
      else
        (let ampm = (if h \<ge> 12 then ''pm'' else ''am'');
             d0 = (if h = 0 then 12 else h);
             displayHours = (if d0 > 12 then d0 - 12 else d0)
         in if m = 0 then showInt displayHours @ ampm
            else showInt displayHours @ '':'' @ padStart2 (showInt m) @ ampm))"

text \<open>\<open>/^(\s*-\s*)(.*)/\<close>: the marker with the white space around it, and the content up to
  the first line terminator.\<close>

definition dashSplit :: "string \<Rightarrow> (string \<times> string) option" where
  "dashSplit rawLine =
     (case dashPartLength rawLine of
        None \<Rightarrow> None
      | Some n \<Rightarrow>
          Some (take n rawLine, takeWhile (\<lambda>c. \<not> isLineTerminator c) (drop n rawLine)))"

definition shiftTaskTime :: "string \<Rightarrow> TaskNode \<Rightarrow> string \<Rightarrow> TimeShiftResult" where
  "shiftTaskTime rawLine tk offset =
     (case parseTimeOffset offset of
        None \<Rightarrow> shiftFailure (Some ''Invalid offset format'')
      | Some parsedOffset \<Rightarrow>
          if explicitStart tk \<and> start tk \<noteq> None then
            (case findTimeTokenInLine rawLine of
               None \<Rightarrow> shiftFailure (Some ''Could not locate time in line to modify'')
             | Some timeToken \<Rightarrow>
                 (let shiftResult = applyTimeOffsetToTimeString (hit_timeStr timeToken) parsedOffset
                  in if \<not> ts_success shiftResult then shiftFailure (ts_error shiftResult)
                     else shiftSuccess
                            (take (hit_start timeToken) rawLine
                             @ (case newTime shiftResult of Some t \<Rightarrow> t | None \<Rightarrow> ''undefined'')
                             @ drop (hit_end timeToken) rawLine)))
          else if \<not> explicitStart tk \<and> start tk \<noteq> None then
            (case start tk of
               None \<Rightarrow> shiftFailure (Some ''Task has no time information to shift'')
             | Some s \<Rightarrow>
                 (let newTimeStr = formatTimeForInsertion (s + offsetMinutes parsedOffset)
                  in case dashSplit rawLine of
                       None \<Rightarrow> shiftFailure (Some ''Invalid task line format'')
                     | Some (prefix, content) \<Rightarrow>
                         shiftSuccess (prefix @ newTimeStr @ '', '' @ content)))
          else shiftFailure (Some ''Task has no time information to shift''))"

text \<open>The loop of \<open>findAffectedLines\<close> over the lines after the shifted one.\<close>

fun affectedFrom :: "ParsedLine list \<Rightarrow> ParsedLine list" where
  "affectedFrom [] = []"
| "affectedFrom (l # ls) =
     (case node l of
        Some (TaskN t) \<Rightarrow> if explicitStart t then [] else l # affectedFrom ls
      | _ \<Rightarrow> affectedFrom ls)"

definition findAffectedLines :: "ParsedLine \<Rightarrow> ParsedLine list \<Rightarrow> ParsedLine list" where
  "findAffectedLines shiftedLine allLines =
     (case dropWhile (\<lambda>l. pl_id l \<noteq> pl_id shiftedLine) allLines of
        [] \<Rightarrow> []
      | l # rest \<Rightarrow> affectedFrom rest)"

definition executeTimeShift :: "ParsedLine \<Rightarrow> string \<Rightarrow> ParsedLine list \<Rightarrow> TimeShiftResult" where
  "executeTimeShift line offset allLines =
     (let validation = validateTimeOffset offset in
      if \<not> valid validation then shiftFailure (error validation)
      else
        (case node line of
           Some (TaskN tk) \<Rightarrow>
             if \<not> lf_valid (validateTaskLineFormat (pl_raw line))
             then shiftFailure (Some ''Invalid task line format - missing dash or malformed syntax'')
             else
               (let timeShiftResult = shiftTaskTime (pl_raw line) tk offset
                in if \<not> success timeShiftResult then timeShiftResult
                   else \<lparr>success = True,
                         newLineContent = newLineContent timeShiftResult,
                         shiftError = None,
                         affectedLines = Some (map pl_id (findAffectedLines line allLines))\<rparr>)
         | _ \<Rightarrow> shiftFailure (Some ''Time shift can only be applied to task lines'')))"

text \<open>A \<open>Map\<close>: the entries in insertion order; a key set again keeps its place.\<close>

definition mapSet :: "('k \<times> 'v) list \<Rightarrow> 'k \<Rightarrow> 'v \<Rightarrow> ('k \<times> 'v) list" where
  "mapSet m k v =
     (if map_of m k \<noteq> None then map (\<lambda>(k', v'). if k' = k then (k', v) else (k', v')) m
      else m @ [(k, v)])"

record BatchShift =
  bs_success :: bool
  bs_results :: "(string \<times> TimeShiftResult) list"
  bs_error :: "string option"

definition executeBatchTimeShift :: "ParsedLine list \<Rightarrow> string \<Rightarrow> BatchShift" where
  "executeBatchTimeShift lines offset =
     (let validation = validateTimeOffset offset in
      if \<not> valid validation
      then \<lparr>bs_success = False, bs_results = [], bs_error = error validation\<rparr>
      else
        (let (results, hasErrors) =
               foldl (\<lambda>(results, hasErrors) line.
                        (let result = executeTimeShift line offset lines
                         in (mapSet results (pl_id line) result,
                             hasErrors \<or> \<not> success result)))
                 ([], False) lines
         in \<lparr>bs_success = \<not> hasErrors, bs_results = results,
             bs_error = (if hasErrors then Some ''Some lines failed to shift'' else None)\<rparr>))"

section \<open>The language service (lsp/core.ts)\<close>

record LineOutcome =
  lo_success :: bool
  lo_error :: "string option"

record BatchTimeShiftResult =
  b_success :: bool
  newContent :: "string option"
  b_error :: "string option"
  b_results :: "(nat \<times> LineOutcome) list"

definition analyzeDocument :: "Env \<Rightarrow> string \<Rightarrow> JsError + Program" where
  "analyzeDocument env content = parseAndAnalyze env content \<lparr>today = None, opt_timezone = None\<rparr>"

text \<open>\<open>lineNumbers.map(n => program.lines[n - 1]).filter(Boolean)\<close>\<close>

definition selectLines :: "ParsedLine list \<Rightarrow> int list \<Rightarrow> ParsedLine list" where
  "selectLines ls lineNumbers =
     concat (map (\<lambda>n. if 1 \<le> n \<and> n \<le> int (length ls) then [ls ! nat (n - 1)] else [])
               lineNumbers)"

text \<open>One round of the loop that writes the results of a batch into the content.\<close>

definition mergeResult ::
  "ParsedLine list \<Rightarrow> string list \<times> (nat \<times> LineOutcome) list \<Rightarrow> string \<times> TimeShiftResult
     \<Rightarrow> string list \<times> (nat \<times> LineOutcome) list" where
  "mergeResult programLines acc entry =
     (let (contentLines, results) = acc; (lineId, result) = entry in
      case find (\<lambda>l. pl_id l = lineId) programLines of
        None \<Rightarrow> (contentLines, results)
      | Some line \<Rightarrow>
          if success result \<and> truthy (newLineContent result)
          then ((case newLineContent result of
                   Some t \<Rightarrow> contentLines[pl_lineNo line - 1 := t]
                 | None \<Rightarrow> contentLines),
                mapSet results (pl_lineNo line) \<lparr>lo_success = True, lo_error = None\<rparr>)
          else (contentLines,
                mapSet results (pl_lineNo line)
                  \<lparr>lo_success = False, lo_error = shiftError result\<rparr>))"

definition shiftMultipleLines ::
  "Env \<Rightarrow> string \<Rightarrow> int list \<Rightarrow> string \<Rightarrow> JsError + BatchTimeShiftResult" where
  "shiftMultipleLines env content lineNumbers offset =
     (let validation = validateTimeOffset offset in
      if \<not> valid validation
      then Inr \<lparr>b_success = False, newContent = None, b_error = error validation, b_results = []\<rparr>
      else
        (case analyzeDocument env content of
           Inl err \<Rightarrow> Inl err
         | Inr program \<Rightarrow>
             (let batchResult = executeBatchTimeShift (selectLines (pr_lines program) lineNumbers) offset
              in if \<not> bs_success batchResult
                 then Inr \<lparr>b_success = False, newContent = None, b_error = bs_error batchResult,
                           b_results = []\<rparr>
                 else
                   (let (contentLines, results) =
                          foldl (mergeResult (pr_lines program)) (splitLines content, [])
                            (bs_results batchResult)
                    in Inr \<lparr>b_success = True,
                             newContent = Some (joinWith [CHR 0x0A] contentLines),
                             b_error = None, b_results = results\<rparr>))))"

section \<open>A runtime for the examples\<close>

text \<open>
  A runtime in which the current day is 2025-01-15 and a well-formed day text starts
  at its day of the month, counted in minutes; any other text is no date.
\<close>

definition sampleEnv :: Env where
  "sampleEnv =
     \<lparr>currentDate = ''2025-01-15'', systemTimeZone = ''UTC'',
      dayStart = (\<lambda>d. if isDayFormat d then ValidDate (1440 * int (parseInt (drop 8 d)))
                       else InvalidDate),
      localToday = 21600\<rparr>"

definition noOptions :: ParseOptions where
  "noOptions = \<lparr>today = None, opt_timezone = None\<rparr>"

section \<open>Notions for stating the properties\<close>

text \<open>The raw records of the lines of a text, as a new analyzer parses them.\<close>

definition rawLinesOf :: "string \<Rightarrow> ParsedLineRaw list" where
  "rawLinesOf source = fst (parseLinesFrom planner 0 (splitLines source))"

text \<open>The analyzer after the first pass over a text.\<close>

definition prescanState :: "Env \<Rightarrow> ParseOptions \<Rightarrow> string \<Rightarrow> Analyzer" where
  "prescanState env options source =
     firstPass (snd (parseLinesToRaw (newAnalyzer env options) (splitLines source)))
       (rawLinesOf source)"

text \<open>The second pass over the first \<open>i\<close> lines only: the analyzer as it stands before
  line \<open>i\<close> (counted from 0), and the results of the lines before it.\<close>

definition analysisUpTo ::
  "Env \<Rightarrow> ParseOptions \<Rightarrow> string \<Rightarrow> nat \<Rightarrow> JsError + (Analyzer \<times> ParsedLine list)" where
  "analysisUpTo env options source i =
     secondPass env (prescanState env options source) 0 (take i (rawLinesOf source))"

text \<open>
  A validly scheduled task: the node of a task line none of whose diagnostics is of the
  error class. The scheduled tasks of a list of analyzed lines, in order, and the end
  of the last of them.
\<close>

definition scheduledTask :: "ParsedLine \<Rightarrow> TaskNode option" where
  "scheduledTask l =
     (case node l of
        Some (TaskN t) \<Rightarrow> if list_ex isErrorDiag (pl_diagnostics l) then None else Some t
      | _ \<Rightarrow> None)"

definition scheduledTasks :: "ParsedLine list \<Rightarrow> TaskNode list" where
  "scheduledTasks ls = List.map_filter scheduledTask ls"

definition lastScheduledEnd :: "ParsedLine list \<Rightarrow> instant option" where
  "lastScheduledEnd ls =
     (if scheduledTasks ls = [] then None else finish (last (scheduledTasks ls)))"

definition hasCode :: "string \<Rightarrow> ParsedLine \<Rightarrow> bool" where
  "hasCode c l = list_ex (\<lambda>d. code d = c) (pl_diagnostics l)"

text \<open>A diagnostic that is no overlap diagnostic.\<close>

definition notOverlapCode :: "Diagnostic \<Rightarrow> bool" where
  "notOverlapCode d = (code d \<noteq> ''E030-overlap'' \<and> code d \<noteq> ''W010-overlap'')"

text \<open>The half-open interval test of a task from \<open>s\<close> to \<open>e\<close> against a scheduled task.\<close>

definition intervalsIntersect :: "instant \<Rightarrow> instant \<Rightarrow> TaskNode \<Rightarrow> bool" where
  "intervalsIntersect s e other =
     (case (start other, finish other) of
        (Some otherStart, Some otherEnd) \<Rightarrow> s < otherEnd \<and> e > otherStart
      | _ \<Rightarrow> False)"

text \<open>
  The offset grammar in the words of the specification: a sign, then an hour count with
  the hour unit and/or a minute count with the minute unit, at least one of them present
  (an empty count stands for a part that is absent); and the magnitude in minutes.
\<close>

definition offsetText :: "char \<Rightarrow> string \<Rightarrow> string \<Rightarrow> string" where
  "offsetText sg hs ms =
     sg # (if hs = [] then [] else hs @ ''h'') @ (if ms = [] then [] else ms @ ''m'')"

definition offsetShape :: "string \<Rightarrow> char \<Rightarrow> string \<Rightarrow> string \<Rightarrow> bool" where
  "offsetShape s sg hs ms =
     (s = offsetText sg hs ms \<and> (sg = CHR ''+'' \<or> sg = CHR ''-'')
      \<and> list_all isDigit hs \<and> list_all isDigit ms \<and> (hs \<noteq> [] \<or> ms \<noteq> []))"

definition offsetMagnitude :: "string \<Rightarrow> string \<Rightarrow> nat" where
  "offsetMagnitude hs ms = parseInt hs * 60 + parseInt ms"

definition formatErrorMessage :: string where
  "formatErrorMessage = ''Invalid offset format. Use +/-[Nh][Nm] (e.g., +10m, -1h30m, +2h)''"

section \<open>Carry, borrow and wrap-around\<close>

lemma carryUp_div: "0 \<le> m \<Longrightarrow> carryUp m h = (m mod 60, h + m div 60)"
proof (induction m h rule: carryUp.induct)
  case (1 m h)
  show ?case
  proof (cases "m \<ge> 60")
    case True
    then have "carryUp m h = carryUp (m - 60) (h + 1)" by (subst carryUp.simps) simp
    also have "\<dots> = ((m - 60) mod 60, h + 1 + (m - 60) div 60)" using 1 True by simp
    also have "\<dots> = (m mod 60, h + m div 60)"
    proof -
      have "(m - 60) mod 60 = m mod 60" by (metis mod_diff_right_eq mod_self diff_zero)
      moreover have "(m - 60) div 60 = m div 60 - 1"
        using div_add_self2 [of 60 "m - 60"] by simp
      ultimately show ?thesis by simp
    qed
    finally show ?thesis .
  next
    case False
    then show ?thesis using 1(2) by (subst carryUp.simps) simp
  qed
qed

lemma borrowDown_div: "m < 60 \<Longrightarrow> borrowDown m h = (m mod 60, h + m div 60)"
proof (induction m h rule: borrowDown.induct)
  case (1 m h)
  show ?case
  proof (cases "m < 0")
    case True
    then have "borrowDown m h = borrowDown (m + 60) (h - 1)" by (subst borrowDown.simps) simp
    also have "\<dots> = ((m + 60) mod 60, h - 1 + (m + 60) div 60)" using 1 True by simp
    also have "\<dots> = (m mod 60, h + m div 60)"
    proof -
      have "(m + 60) mod 60 = m mod 60" by simp
      moreover have "(m + 60) div 60 = m div 60 + 1" by simp
      ultimately show ?thesis by simp
    qed
    finally show ?thesis .
  next
    case False
    then show ?thesis using 1(2) by (subst borrowDown.simps) simp
  qed
qed

lemma carry_borrow:
  "(case carryUp x h of (m1, h1) \<Rightarrow> borrowDown m1 h1) = (x mod 60, h + x div 60)"
proof (cases "0 \<le> x")
  case True
  then have "carryUp x h = (x mod 60, h + x div 60)" by (rule carryUp_div)
  moreover have "0 \<le> x mod 60" by simp
  then have "borrowDown (x mod 60) (h + x div 60) = (x mod 60, h + x div 60)"
    by (subst borrowDown.simps) (simp del: pos_mod_sign)
  ultimately show ?thesis by simp
next
  case False
  then have "carryUp x h = (x, h)" by (subst carryUp.simps) simp
  moreover have "borrowDown x h = (x mod 60, h + x div 60)"
    using False by (intro borrowDown_div) simp
  ultimately show ?thesis by simp
qed

lemma jsRem_wrap: "jsRem (jsRem a 24 + 24) 24 = a mod 24"
proof -
  have r: "jsRem a 24 = (if a < 0 then - ((- a) mod 24) else a mod 24)"
    by (auto simp: jsRem_def sgn_if)
  have "0 \<le> jsRem a 24 + 24" unfolding r
    by (smt (verit) pos_mod_bound pos_mod_sign)
  then have "jsRem (jsRem a 24 + 24) 24 = (jsRem a 24 + 24) mod 24"
    by (auto simp: jsRem_def sgn_if)
  also have "\<dots> = jsRem a 24 mod 24" by simp
  also have "\<dots> = a mod 24" unfolding r
    by (simp add: mod_minus_eq)
  finally show ?thesis .
qed

lemma day_split:
  fixes h x :: int
  shows "((h * 60 + x) mod 1440) div 60 = (h + x div 60) mod 24"
    and "((h * 60 + x) mod 1440) mod 60 = x mod 60"
proof -
  let ?t = "h * 60 + x"
  have a: "?t div 60 = h + x div 60" by simp
  have "?t mod 1440 = ?t mod (60 * 24)" by simp
  also have "\<dots> = 60 * ((?t div 60) mod 24) + ?t mod 60"
    by (rule zmod_zmult2_eq) simp
  finally have e: "?t mod 1440 = 60 * ((h + x div 60) mod 24) + x mod 60"
    using a by simp
  show "(?t mod 1440) div 60 = (h + x div 60) mod 24" unfolding e by simp
  show "(?t mod 1440) mod 60 = x mod 60" unfolding e by simp
qed

text \<open>
  Claim C7. Shifting a time string carries minutes into hours and borrows them back
  exactly, and wraps around the 24 hours in both directions: the new time is the old
  minute of the day plus the offset, modulo 1440, rendered in the format that the input
  had. In particular "23:45" shifted by +30 minutes is "00:15", and "00:15" shifted by
  -30 minutes is "23:45", both in the 24-hour HH:MM style of the input.
\<close>

theorem day_boundary_wraparound:
  assumes "parseTimeString timeStr = Some p"
  shows "applyTimeOffsetToTimeString timeStr offset =
           \<lparr>ts_success = True,
            newTime = Some (formatTimeString
                       (((int (pt_hours p) * 60 + int (pt_minutes p) + offsetMinutes offset) mod 1440) div 60)
                       (((int (pt_hours p) * 60 + int (pt_minutes p) + offsetMinutes offset) mod 1440) mod 60)
                       (pt_format p)),
            ts_error = None\<rparr>
         \<and> applyTimeOffsetToTimeString ''23:45'' \<lparr>hours = 0, minutes = 30, sign = 1\<rparr> =
           \<lparr>ts_success = True, newTime = Some ''00:15'', ts_error = None\<rparr>
         \<and> applyTimeOffsetToTimeString ''00:15'' \<lparr>hours = 0, minutes = 30, sign = - 1\<rparr> =
           \<lparr>ts_success = True, newTime = Some ''23:45'', ts_error = None\<rparr>"
proof -
  let ?x = "int (pt_minutes p) + offsetMinutes offset"
  let ?h = "int (pt_hours p)"
  have split: "(case carryUp ?x ?h of (m1, h1) \<Rightarrow> borrowDown m1 h1) = (?x mod 60, ?h + ?x div 60)"
    by (rule carry_borrow)
  have t: "?h * 60 + int (pt_minutes p) + offsetMinutes offset = ?h * 60 + ?x" by simp
  have general: "applyTimeOffsetToTimeString timeStr offset =
           \<lparr>ts_success = True,
            newTime = Some (formatTimeString ((?h + ?x div 60) mod 24) (?x mod 60) (pt_format p)),
            ts_error = None\<rparr>"
    using assms split
    by (simp add: applyTimeOffsetToTimeString_def Let_def jsRem_wrap split: prod.splits)
  have a: "applyTimeOffsetToTimeString ''23:45'' \<lparr>hours = 0, minutes = 30, sign = 1\<rparr> =
           \<lparr>ts_success = True, newTime = Some ''00:15'', ts_error = None\<rparr>"
    by code_simp
  have b: "applyTimeOffsetToTimeString ''00:15'' \<lparr>hours = 0, minutes = 30, sign = - 1\<rparr> =
           \<lparr>ts_success = True, newTime = Some ''23:45'', ts_error = None\<rparr>"
    by code_simp
  show ?thesis
    unfolding t day_split using general a b by simp
qed

theorem day_boundary_wraparound_witness:
  "parseTimeString ''11:45pm'' = Some \<lparr>pt_hours = 23, pt_minutes = 45, pt_format = clock12\<rparr>
   \<and> applyTimeOffsetToTimeString ''11:45pm'' \<lparr>hours = 0, minutes = 30, sign = 1\<rparr> =
       \<lparr>ts_success = True, newTime = Some ''12:15am'', ts_error = None\<rparr>"
proof -
  have h: "parseTimeString ''11:45pm'' = Some \<lparr>pt_hours = 23, pt_minutes = 45, pt_format = clock12\<rparr>"
    by code_simp
  have f: "formatTimeString 0 15 clock12 = ''12:15am''" by code_simp
  show ?thesis
    using h f day_boundary_wraparound [OF h, of "\<lparr>hours = 0, minutes = 30, sign = 1\<rparr>"]
    by (simp add: offsetMinutes_def)
qed

section \<open>The dash token of a line\<close>

lemma splitAcc_single: "CHR 0x0A \<notin> set s \<Longrightarrow> splitAcc cur s = [rev cur @ s]"
  by (induction cur s rule: splitAcc.induct) auto

lemma splitAcc_no_newline:
  "CHR 0x0A \<notin> set cur \<Longrightarrow> l \<in> set (splitAcc cur s) \<Longrightarrow> CHR 0x0A \<notin> set l"
  by (induction cur s rule: splitAcc.induct) (auto split: if_splits)

lemma splitLines_no_newline: "l \<in> set (splitLines s) \<Longrightarrow> CHR 0x0A \<notin> set l"
  using splitAcc_no_newline [of "[]" l s] by (simp add: splitLines_def)

lemma splitLines_single: "CHR 0x0A \<notin> set s \<Longrightarrow> splitLines s = [s]"
  by (simp add: splitLines_def splitAcc_single)

lemma matchToken_dash: "matchToken (CHR ''-'' # rest) = Some (Dash, 1)"
  by (simp add: matchToken_def mWhiteSpace_def mEOL_def mHashComment_def mSlashComment_def
        mLiteral_def startsWith_def)

lemma dropWhile_append_stop:
  "\<not> P y \<Longrightarrow> dropWhile P (xs @ y # ys) = dropWhile P xs @ y # ys"
  by (induction xs) auto

lemma takeWhile_append_stop:
  "\<not> P y \<Longrightarrow> takeWhile P (xs @ y # ys) = takeWhile P xs"
  by (induction xs) auto

lemma matchToken_blank:
  assumes "c = CHR '' '' \<or> c = CHR 0x09"
  shows "matchToken (c # s) = Some (WhiteSpace, mWhiteSpace (c # s)) \<and> 0 < mWhiteSpace (c # s)"
  using assms by (auto simp: matchToken_def mWhiteSpace_def)

lemma matchToken_other_space:
  assumes "isSpace c" and "c \<noteq> CHR '' ''" and "c \<noteq> CHR 0x09" and "c \<noteq> CHR 0x0A"
    and "s = [] \<or> hd s \<noteq> CHR 0x0A"
  shows "matchToken (c # s) = None"
proof -
  from assms(1-4) consider "c = CHR 0x0B" | "c = CHR 0x0C" | "c = CHR 0x0D" | "c = CHR 0xA0"
    by (auto simp: isSpace_def)
  then show ?thesis
  proof cases
    case 1
    then show ?thesis
      by (simp add: matchToken_def mWhiteSpace_def mEOL_def mHashComment_def mSlashComment_def
        mLiteral_def startsWith_def mTimeWord_def toLowerCase_def lowerChar_def isUpper_def
        mDuration_def mTimeClock_def isDigit_def mIdentifier_def isIdentChar_def isAlpha_def
        isLower_def mText_def isSpace_def Let_def)
  next
    case 2
    then show ?thesis
      by (simp add: matchToken_def mWhiteSpace_def mEOL_def mHashComment_def mSlashComment_def
        mLiteral_def startsWith_def mTimeWord_def toLowerCase_def lowerChar_def isUpper_def
        mDuration_def mTimeClock_def isDigit_def mIdentifier_def isIdentChar_def isAlpha_def
        isLower_def mText_def isSpace_def Let_def)
  next
    case 3
    then show ?thesis using assms(5)
      by (cases s) (simp_all add: matchToken_def mWhiteSpace_def mEOL_def mHashComment_def mSlashComment_def
        mLiteral_def startsWith_def mTimeWord_def toLowerCase_def lowerChar_def isUpper_def
        mDuration_def mTimeClock_def isDigit_def mIdentifier_def isIdentChar_def isAlpha_def
        isLower_def mText_def isSpace_def Let_def)
  next
    case 4
    then show ?thesis
      by (simp add: matchToken_def mWhiteSpace_def mEOL_def mHashComment_def mSlashComment_def
        mLiteral_def startsWith_def mTimeWord_def toLowerCase_def lowerChar_def isUpper_def
        mDuration_def mTimeClock_def isDigit_def mIdentifier_def isIdentChar_def isAlpha_def
        isLower_def mText_def isSpace_def Let_def)
  qed
qed

lemma lexFrom_dash:
  "list_all isSpace ws \<Longrightarrow> CHR 0x0A \<notin> set ws \<Longrightarrow>
     list_ex (\<lambda>t. tokenType t = Dash) (lexFrom off (ws @ CHR ''-'' # rest))"
proof (induction ws arbitrary: off rule: length_induct)
  case (1 ws)
  show ?case
  proof (cases ws)
    case Nil
    then show ?thesis
      by (subst lexFrom.simps) (simp add: matchToken_dash)
  next
    case (Cons c ws')
    show ?thesis
    proof (cases "c = CHR '' '' \<or> c = CHR 0x09")
      case True
      let ?P = "\<lambda>c. c = CHR '' '' \<or> c = CHR 0x09"
      let ?s = "ws @ CHR ''-'' # rest"
      from matchToken_blank [OF True, of "ws' @ CHR ''-'' # rest"]
      have m: "matchToken ?s = Some (WhiteSpace, mWhiteSpace ?s)"
        by (simp add: Cons)
      have d: "drop (mWhiteSpace ?s) ?s = dropWhile ?P ws @ CHR ''-'' # rest"
        unfolding mWhiteSpace_def dropWhile_eq_drop [symmetric]
        by (simp add: dropWhile_append_stop)
      have len: "length (dropWhile ?P ws) < length ws"
        using True Cons by (simp add: length_dropWhile_le le_imp_less_Suc)
      have sp: "list_all isSpace (dropWhile ?P ws)"
        using "1.prems"(1) by (metis list_all_iff set_dropWhileD)
      have nl: "CHR 0x0A \<notin> set (dropWhile ?P ws)"
        using "1.prems"(2) by (meson set_dropWhileD)
      from "1.IH" len sp nl
      have "list_ex (\<lambda>t. tokenType t = Dash)
              (lexFrom (off + mWhiteSpace ?s) (dropWhile ?P ws @ CHR ''-'' # rest))"
        by blast
      then show ?thesis
        by (subst lexFrom.simps) (simp add: m d del: drop_append)
    next
      case False
      have "ws' @ CHR ''-'' # rest = [] \<or> hd (ws' @ CHR ''-'' # rest) \<noteq> CHR 0x0A"
        using "1.prems"(2) Cons by (cases ws') auto
      with False "1.prems" Cons
      have m: "matchToken (c # ws' @ CHR ''-'' # rest) = None"
        by (intro matchToken_other_space) auto
      from "1.IH" "1.prems" Cons
      have "list_ex (\<lambda>t. tokenType t = Dash) (lexFrom (off + 1) (ws' @ CHR ''-'' # rest))"
        by auto
      then show ?thesis
        by (subst lexFrom.simps) (simp add: m Cons)
    qed
  qed
qed

lemma dashPartLength_Some:
  assumes "dashPartLength line = Some n"
  shows "\<exists>r. dropWhile isSpace line = CHR ''-'' # r
           \<and> line = takeWhile isSpace line @ CHR ''-'' # r
           \<and> take n line = takeWhile isSpace line @ CHR ''-'' # takeWhile isSpace r
           \<and> drop n line = dropWhile isSpace r"
proof -
  from assms obtain r where r: "dropWhile isSpace line = CHR ''-'' # r"
    and n: "n = length (takeWhile isSpace line) + 1 + length (takeWhile isSpace r)"
    by (auto simp: dashPartLength_def Let_def split: list.splits if_splits)
  have l: "line = takeWhile isSpace line @ CHR ''-'' # r"
    using r takeWhile_dropWhile_id [of isSpace line] by simp
  have l2: "line = (takeWhile isSpace line @ CHR ''-'' # takeWhile isSpace r) @ dropWhile isSpace r"
    using l by simp
  have "take n line = takeWhile isSpace line @ CHR ''-'' # takeWhile isSpace r"
    by (subst l2) (simp add: n takeWhile_eq_take [symmetric])
  moreover have "drop n line = dropWhile isSpace r"
    by (subst l2) (simp add: n dropWhile_eq_drop [symmetric])
  ultimately show ?thesis using r l by blast
qed

lemma processedLine_dash:
  assumes "dashPartLength line = Some n"
  shows "\<exists>rest. processedLine (preprocessLine line k) = takeWhile isSpace line @ CHR ''-'' # rest"
proof -
  from dashPartLength_Some [OF assms] obtain r where
    l: "line = takeWhile isSpace line @ CHR ''-'' # r"
    and t: "take n line = takeWhile isSpace line @ CHR ''-'' # takeWhile isSpace r"
    by blast
  show ?thesis
  proof (cases "processedLine (preprocessLine line k) = line")
    case True
    then show ?thesis using l by metis
  next
    case False
    then have "processedLine (preprocessLine line k) = take n line @ '' '' @ drop n line"
      using assms by (auto simp: preprocessLine_def Let_def split: if_splits)
    then show ?thesis unfolding t by simp
  qed
qed

lemma validateTaskLineFormat_dash:
  assumes "dashPartLength line = Some n" and "CHR 0x0A \<notin> set line"
  shows "lf_valid (validateTaskLineFormat line)"
proof -
  from processedLine_dash [OF assms(1)] obtain rest where
    p: "processedLine (preprocessLine line 1) = takeWhile isSpace line @ CHR ''-'' # rest"
    by blast
  have sp: "list_all isSpace (takeWhile isSpace line)"
    by (simp add: list_all_iff) (meson set_takeWhileD)
  have nl: "CHR 0x0A \<notin> set (takeWhile isSpace line)"
    using assms(2) by (meson set_takeWhileD)
  have "list_ex (\<lambda>t. tokenType t = Dash) (lexFrom 0 (processedLine (preprocessLine line 1)))"
    unfolding p using sp nl by (rule lexFrom_dash)
  then have "list_ex (\<lambda>t. tokenType t = Dash) (tokenizeLine line 1)"
    by (auto simp: tokenizeLine_def list_ex_iff)
  then show ?thesis
    by (simp add: validateTaskLineFormat_def tokenize_def tokenizeLines_def
          splitLines_single [OF assms(2)] Let_def)
qed

section \<open>The steps of the second pass\<close>

lemma applyDirective_keeps:
  "applyDirective st d = Inr st' \<Longrightarrow> cursorTime st' = cursorTime st \<and> tasks st' = tasks st"
  by (auto simp: applyDirective_def split: if_splits sum.splits option.splits)

lemma analyzeDirective_keeps:
  "analyzeDirective st rl d ident = (st', l) \<Longrightarrow>
     cursorTime st' = cursorTime st \<and> tasks st' = tasks st
     \<and> node l = Some (DirectiveN \<lparr>dn_name = name d, dn_args = args d\<rparr>)"
  by (auto simp: analyzeDirective_def Let_def dest: applyDirective_keeps split: sum.splits prod.splits)

lemma toISOString_Inr:
  "toISOString d = Inr x \<longleftrightarrow> (d = None \<and> x = None) \<or> (\<exists>t. d = Some (ValidDate t) \<and> x = Some t)"
  by (auto simp: toISOString_def split: option.splits JsDate.splits)

lemma taskTitle_nonempty: "taskTitle tk \<noteq> []"
  by (simp add: taskTitle_def Let_def)

lemma taskTitle_untitled: "titleParts tk = [] \<Longrightarrow> taskTitle tk = ''Untitled''"
  by (simp add: taskTitle_def Let_def joinWith_def trim_def)

lemma analyzeTask_Inr:
  assumes "analyzeTask env st rl tk ident = Inr (st', l)"
  obtains startDate explicit missing startIso endIso dur t where
    "determineStart env st rl tk = (startDate, explicit, missing)"
    "dur = (case durationValue rl tk of Some v \<Rightarrow> v | None \<Rightarrow> defaultDurationMin (an_context st))"
    "toISOString startDate = Inr startIso"
    "toISOString (map_option (addMinutes dur) startDate) = Inr endIso"
    "pl_diagnostics l = collectParseErrors rl tk @ missing
        @ overlapDiagnostic st rl startDate (map_option (addMinutes dur) startDate)"
    "t = \<lparr>title = taskTitle tk, start = startIso, durationMin = dur, finish = endIso,
          categories = fst (parseCategories (rt_categories tk) (lineNo rl)),
          explicitStart = explicit, explicitDuration = (durationValue rl tk \<noteq> None)\<rparr>"
    "node l = Some (TaskN t)"
    "status l = (if list_ex isErrorDiag (pl_diagnostics l) then Invalid
                 else if pl_diagnostics l \<noteq> [] then ValidWithWarnings else Valid)"
    "st' = (if \<not> list_ex isErrorDiag (pl_diagnostics l) \<and> endIso \<noteq> None
            then st\<lparr>cursorTime := endIso, tasks := tasks st @ [t]\<rparr> else st)"
    "pl_raw l = raw rl" "pl_lineNo l = lineNo rl" "pl_id l = ident"
proof -
  obtain startDate explicit missing where ds: "determineStart env st rl tk = (startDate, explicit, missing)"
    by (cases "determineStart env st rl tk") auto
  from assms ds show ?thesis
    unfolding analyzeTask_def Let_def
    by (auto split: sum.splits intro!: that)
qed

lemma determineStart_cases:
  "determineStart env st rl tk = (sd, ex, ms) \<Longrightarrow>
     (ex \<longleftrightarrow> timeValue rl tk \<noteq> None)
     \<and> (ms = [] \<longleftrightarrow> sd \<noteq> None)
     \<and> (ms \<noteq> [] \<longrightarrow> list_ex isErrorDiag ms \<and> timeValue rl tk = None \<and> cursorTime st = None
          \<and> list_ex (\<lambda>d. code d = ''E020-missing-start-first-line'') ms)
     \<and> (timeValue rl tk = None \<longrightarrow> cursorTime st = None \<longrightarrow> ms \<noteq> [])
     \<and> (timeValue rl tk = None \<longrightarrow> (\<forall>c. cursorTime st = Some c \<longrightarrow> sd = Some (ValidDate c)))"
  by (auto simp: determineStart_def isErrorDiag_def startsWith_def split: option.splits)

text \<open>A committed task has an end.\<close>

lemma analyzeTask_commit:
  assumes "analyzeTask env st rl tk ident = Inr (st', l)"
  shows "(list_ex isErrorDiag (pl_diagnostics l) \<longrightarrow> st' = st)
       \<and> (\<not> list_ex isErrorDiag (pl_diagnostics l) \<longrightarrow>
            (\<exists>t e. node l = Some (TaskN t) \<and> finish t = Some e
                 \<and> st' = st\<lparr>cursorTime := Some e, tasks := tasks st @ [t]\<rparr>))"
proof -
  from assms obtain startDate explicit missing startIso endIso dur t where
    ds: "determineStart env st rl tk = (startDate, explicit, missing)"
    and s: "toISOString startDate = Inr startIso"
    and e: "toISOString (map_option (addMinutes dur) startDate) = Inr endIso"
    and d: "pl_diagnostics l = collectParseErrors rl tk @ missing
        @ overlapDiagnostic st rl startDate (map_option (addMinutes dur) startDate)"
    and t: "t = \<lparr>title = taskTitle tk, start = startIso, durationMin = dur, finish = endIso,
          categories = fst (parseCategories (rt_categories tk) (lineNo rl)),
          explicitStart = explicit, explicitDuration = (durationValue rl tk \<noteq> None)\<rparr>"
    and n: "node l = Some (TaskN t)"
    and st': "st' = (if \<not> list_ex isErrorDiag (pl_diagnostics l) \<and> endIso \<noteq> None
            then st\<lparr>cursorTime := endIso, tasks := tasks st @ [t]\<rparr> else st)"
    by (rule analyzeTask_Inr)
  show ?thesis
  proof (intro conjI impI)
    assume "list_ex isErrorDiag (pl_diagnostics l)"
    then show "st' = st" using st' by simp
  next
    assume ne: "\<not> list_ex isErrorDiag (pl_diagnostics l)"
    then have "\<not> list_ex isErrorDiag missing" using d by (simp add: list_ex_iff)
    then have "missing = []" using determineStart_cases [OF ds] by blast
    then have "startDate \<noteq> None" using determineStart_cases [OF ds] by blast
    then obtain e' where e': "endIso = Some e'"
      using e s by (auto simp: toISOString_Inr addMinutes_def split: JsDate.splits)
    show "\<exists>t e. node l = Some (TaskN t) \<and> finish t = Some e
                 \<and> st' = st\<lparr>cursorTime := Some e, tasks := tasks st @ [t]\<rparr>"
      using n t e' st' ne by auto
  qed
qed

lemma secondPass_append:
  "secondPass env st i (xs @ ys) =
     (case secondPass env st i xs of
        Inl e \<Rightarrow> Inl e
      | Inr (st1, l1) \<Rightarrow>
          (case secondPass env st1 (i + length xs) ys of
             Inl e \<Rightarrow> Inl e
           | Inr (st2, l2) \<Rightarrow> Inr (st2, l1 @ l2)))"
  by (induction xs arbitrary: st i) (auto split: sum.splits)

lemma secondPass_length:
  "secondPass env st i raws = Inr (st', ls) \<Longrightarrow> length ls = length raws"
  by (induction raws arbitrary: st i ls) (auto split: sum.splits)

lemma secondPass_take:
  assumes "secondPass env st i raws = Inr (st', ls)"
  shows "\<exists>st1. secondPass env st i (take k raws) = Inr (st1, take k ls)
              \<and> secondPass env st1 (i + length (take k raws)) (drop k raws) = Inr (st', drop k ls)"
proof -
  have "secondPass env st i (take k raws @ drop k raws) = Inr (st', ls)" using assms by simp
  then obtain st1 l1 l2 where
    a: "secondPass env st i (take k raws) = Inr (st1, l1)"
    and b: "secondPass env st1 (i + length (take k raws)) (drop k raws) = Inr (st', l2)"
    and c: "ls = l1 @ l2"
    unfolding secondPass_append by (auto split: sum.splits)
  have "length l1 = length (take k raws)" using a by (rule secondPass_length)
  moreover have "length ls = length raws" using assms by (rule secondPass_length)
  ultimately have "l1 = take k ls" "l2 = drop k ls" using c by (auto simp: min_def)
  then show ?thesis using a b by auto
qed

lemma secondPass_nth:
  assumes "secondPass env st i raws = Inr (st', ls)" and "k < length raws"
  shows "\<exists>st1 st2. secondPass env st i (take k raws) = Inr (st1, take k ls)
              \<and> analyzeLine env st1 (raws ! k) (i + k) = Inr (st2, ls ! k)"
proof -
  from secondPass_take [OF assms(1), of k] obtain st1 where
    a: "secondPass env st i (take k raws) = Inr (st1, take k ls)"
    and b: "secondPass env st1 (i + length (take k raws)) (drop k raws) = Inr (st', drop k ls)"
    by blast
  have d: "drop k raws = raws ! k # drop (Suc k) raws"
    using assms(2) by (simp add: Cons_nth_drop_Suc)
  have len: "length ls = length raws" using assms(1) by (rule secondPass_length)
  have d': "drop k ls = ls ! k # drop (Suc k) ls"
    using assms(2) len by (simp add: Cons_nth_drop_Suc)
  have lk: "length (take k raws) = k" using assms(2) by simp
  from b obtain st2 where "analyzeLine env st1 (raws ! k) (i + k) = Inr (st2, ls ! k)"
    unfolding d d' lk by (auto split: sum.splits)
  then show ?thesis using a by blast
qed

lemma analyzeLine_sched:
  assumes "analyzeLine env st rl i = Inr (st', l)"
  shows "cursorTime st' = (case scheduledTask l of Some t \<Rightarrow> finish t | None \<Rightarrow> cursorTime st)
       \<and> tasks st' = tasks st @ (case scheduledTask l of Some t \<Rightarrow> [t] | None \<Rightarrow> [])
       \<and> (case scheduledTask l of Some t \<Rightarrow> finish t \<noteq> None | None \<Rightarrow> True)"
proof (cases "isBlank rl \<or> isComment rl")
  case True
  then show ?thesis using assms
    by (auto simp: analyzeLine_def plainLine_def scheduledTask_def Let_def)
next
  case nb: False
  show ?thesis
  proof (cases "directive rl")
    case (Some d)
    then have "analyzeDirective st rl d (generateLineId (raw rl) i) = (st', l)"
      using assms nb by (auto simp: analyzeLine_def Let_def)
    from analyzeDirective_keeps [OF this] show ?thesis
      by (simp add: scheduledTask_def)
  next
    case None
    show ?thesis
    proof (cases "task rl")
      case nt: None
      then show ?thesis using assms nb None
        by (auto simp: analyzeLine_def plainLine_def scheduledTask_def Let_def)
    next
      case (Some tk)
      then have a: "analyzeTask env st rl tk (generateLineId (raw rl) i) = Inr (st', l)"
        using assms nb None by (auto simp: analyzeLine_def Let_def)
      from analyzeTask_Inr [OF a] obtain t where n: "node l = Some (TaskN t)" by metis
      show ?thesis
      proof (cases "list_ex isErrorDiag (pl_diagnostics l)")
        case True
        then have "st' = st" using analyzeTask_commit [OF a] by blast
        then show ?thesis using True n by (simp add: scheduledTask_def)
      next
        case False
        then obtain t' e where "node l = Some (TaskN t')" "finish t' = Some e"
          "st' = st\<lparr>cursorTime := Some e, tasks := tasks st @ [t']\<rparr>"
          using analyzeTask_commit [OF a] by blast
        then show ?thesis using False by (simp add: scheduledTask_def)
      qed
    qed
  qed
qed

lemma scheduledTasks_append [simp]:
  "scheduledTasks (xs @ ys) = scheduledTasks xs @ scheduledTasks ys"
  by (simp add: scheduledTasks_def List.map_filter_def)

lemma scheduledTasks_Nil [simp]: "scheduledTasks [] = []"
  by (simp add: scheduledTasks_def List.map_filter_def)

lemma scheduledTasks_Cons:
  "scheduledTasks (l # ls) = (case scheduledTask l of Some t \<Rightarrow> [t] | None \<Rightarrow> []) @ scheduledTasks ls"
  by (simp add: scheduledTasks_def List.map_filter_def split: option.splits)

lemma secondPass_sched:
  "secondPass env st i raws = Inr (st', ls) \<Longrightarrow>
     tasks st' = tasks st @ scheduledTasks ls
     \<and> cursorTime st' = (if scheduledTasks ls = [] then cursorTime st else lastScheduledEnd ls)
     \<and> (\<forall>t \<in> set (scheduledTasks ls). finish t \<noteq> None)"
proof (induction raws arbitrary: st i ls)
  case Nil
  then show ?case by simp
next
  case (Cons r raws)
  from Cons.prems obtain st1 l ls' where
    a: "analyzeLine env st r i = Inr (st1, l)"
    and b: "secondPass env st1 (i + 1) raws = Inr (st', ls')"
    and c: "ls = l # ls'"
    by (auto split: sum.splits)
  note s = analyzeLine_sched [OF a]
  note ih = Cons.IH [OF b]
  show ?case
  proof (cases "scheduledTask l")
    case None
    then show ?thesis using s ih c
      by (auto simp: scheduledTasks_Cons lastScheduledEnd_def)
  next
    case (Some t)
    then show ?thesis using s ih c
      by (auto simp: scheduledTasks_Cons lastScheduledEnd_def)
  qed
qed

lemma parseLinesFrom_length: "length (fst (parseLinesFrom sec i lines)) = length lines"
  by (induction lines arbitrary: sec i) (simp_all add: split_beta Let_def)

lemma parseLinesFrom_append:
  "parseLinesFrom sec i (xs @ ys) =
     (fst (parseLinesFrom sec i xs)
        @ fst (parseLinesFrom (snd (parseLinesFrom sec i xs)) (i + length xs) ys),
      snd (parseLinesFrom (snd (parseLinesFrom sec i xs)) (i + length xs) ys))"
  by (induction xs arbitrary: sec i) (simp_all add: split_beta Let_def)

lemma parseLinesFrom_take:
  "take k (fst (parseLinesFrom sec i lines)) = fst (parseLinesFrom sec i (take k lines))"
proof -
  have "fst (parseLinesFrom sec i (take k lines @ drop k lines))
        = fst (parseLinesFrom sec i (take k lines))
          @ fst (parseLinesFrom (snd (parseLinesFrom sec i (take k lines))) (i + length (take k lines)) (drop k lines))"
    by (subst parseLinesFrom_append) simp
  then have "take k (fst (parseLinesFrom sec i lines))
        = take k (fst (parseLinesFrom sec i (take k lines))
          @ fst (parseLinesFrom (snd (parseLinesFrom sec i (take k lines))) (i + length (take k lines)) (drop k lines)))"
    by simp
  also have "\<dots> = fst (parseLinesFrom sec i (take k lines))"
    by (cases "k \<le> length lines") (simp_all add: parseLinesFrom_length)
  finally show ?thesis .
qed

lemma parseLinesFrom_nth:
  assumes "k < length lines"
  shows "fst (parseLinesFrom sec i lines) ! k =
           fst (parseLineToRaw (snd (parseLinesFrom sec i (take k lines))) (i + k) (lines ! k))"
proof -
  have l: "lines = take k lines @ lines ! k # drop (Suc k) lines"
    using assms by (simp add: id_take_nth_drop)
  have "fst (parseLinesFrom sec i lines) ! k =
        fst (parseLinesFrom sec i (take k lines @ lines ! k # drop (Suc k) lines)) ! k"
    using l by simp
  also have "\<dots> = fst (parseLinesFrom (snd (parseLinesFrom sec i (take k lines))) (i + k)
                        (lines ! k # drop (Suc k) lines)) ! 0"
    using assms
    by (subst parseLinesFrom_append) (simp add: nth_append parseLinesFrom_length)
  also have "\<dots> = fst (parseLineToRaw (snd (parseLinesFrom sec i (take k lines))) (i + k) (lines ! k))"
    by (simp split: prod.splits)
  finally show ?thesis .
qed

lemma applyDirectiveQuietly_keeps:
  "cursorTime (applyDirectiveQuietly st d) = cursorTime st
   \<and> tasks (applyDirectiveQuietly st d) = tasks st"
  using applyDirective_keeps [of st d]
  by (auto simp: applyDirectiveQuietly_def split: sum.splits)

lemma firstPass_keeps:
  "cursorTime (firstPass st raws) = cursorTime st \<and> tasks (firstPass st raws) = tasks st"
proof (induction raws arbitrary: st)
  case Nil
  then show ?case by (simp add: firstPass_def)
next
  case (Cons r raws)
  have "firstPass st (r # raws) =
        firstPass (case directive r of Some d \<Rightarrow> applyDirectiveQuietly st d | None \<Rightarrow> st) raws"
    by (simp add: firstPass_def)
  then show ?case using Cons.IH applyDirectiveQuietly_keeps
    by (auto split: option.splits)
qed

lemma prescanState_fresh:
  "cursorTime (prescanState env opts src) = None \<and> tasks (prescanState env opts src) = []"
  by (simp add: prescanState_def firstPass_keeps parseLinesToRaw_def newAnalyzer_def
           split: prod.splits)

lemma parseAndAnalyze_unfold:
  "parseAndAnalyze env src opts =
     (case secondPass env (prescanState env opts src) 0 (rawLinesOf src) of
        Inl e \<Rightarrow> Inl e
      | Inr (st3, ls) \<Rightarrow> Inr \<lparr>pr_context = an_context st3, pr_lines = ls\<rparr>)"
  by (auto simp: parseAndAnalyze_def analyze_def prescanState_def rawLinesOf_def
        parseLinesToRaw_def newAnalyzer_def Let_def split: prod.splits sum.splits)

lemma rawLinesOf_length: "length (rawLinesOf src) = length (splitLines src)"
  by (simp add: rawLinesOf_def parseLinesFrom_length)

lemma analysis_at:
  assumes "parseAndAnalyze env src opts = Inr p" and "i < length (pr_lines p)"
  shows "\<exists>st st'. analysisUpTo env opts src i = Inr (st, take i (pr_lines p))
           \<and> analyzeLine env st (rawLinesOf src ! i) i = Inr (st', pr_lines p ! i)
           \<and> cursorTime st = lastScheduledEnd (take i (pr_lines p))
           \<and> tasks st = scheduledTasks (take i (pr_lines p))
           \<and> length (pr_lines p) = length (rawLinesOf src)"
proof -
  from assms(1) obtain st3 where
    sp: "secondPass env (prescanState env opts src) 0 (rawLinesOf src) = Inr (st3, pr_lines p)"
    unfolding parseAndAnalyze_unfold by (auto split: sum.splits)
  have len: "length (pr_lines p) = length (rawLinesOf src)" using sp by (rule secondPass_length)
  then have i: "i < length (rawLinesOf src)" using assms(2) by simp
  from secondPass_nth [OF sp i] obtain st1 st2 where
    a: "secondPass env (prescanState env opts src) 0 (take i (rawLinesOf src)) = Inr (st1, take i (pr_lines p))"
    and b: "analyzeLine env st1 (rawLinesOf src ! i) (0 + i) = Inr (st2, pr_lines p ! i)"
    by blast
  from secondPass_sched [OF a] prescanState_fresh [of env opts src]
  have "tasks st1 = scheduledTasks (take i (pr_lines p))"
    and "cursorTime st1 = lastScheduledEnd (take i (pr_lines p))"
    by (auto simp: lastScheduledEnd_def)
  then show ?thesis using a b len by (auto simp: analysisUpTo_def)
qed

lemma parseLineContent_task:
  "lc_task (parseLineContent line lno sec) = Some tk \<Longrightarrow>
     lc_directive (parseLineContent line lno sec) = None \<and> sec = planner
     \<and> (\<exists>content. (dashContent line = Some content
                     \<or> (dashContent line = None \<and> (\<exists>r. bangContent line = Some r \<and> content = CHR ''!'' # r)))
           \<and> directiveHead content = None
           \<and> parseLineContent line lno sec = parseTaskContent line lno content)"
  by (cases sec)
     (auto simp: parseLineContent_def Let_def parseTaskContent_def
        split: option.splits prod.splits if_splits)

lemma parseLineToRaw_fields:
  "raw (fst (parseLineToRaw sec idx line)) = line
   \<and> lineNo (fst (parseLineToRaw sec idx line)) = idx + 1"
  by (simp add: parseLineToRaw_def Let_def)

lemma parseLineToRaw_task:
  assumes "task (fst (parseLineToRaw sec idx line)) = Some tk"
  shows "directive (fst (parseLineToRaw sec idx line)) = None
       \<and> \<not> isBlank (fst (parseLineToRaw sec idx line))
       \<and> \<not> isComment (fst (parseLineToRaw sec idx line))
       \<and> sec = planner
       \<and> lc_task (parseLineContent line (idx + 1) sec) = Some tk"
  using assms parseLineContent_task [of line "idx + 1" sec tk]
  by (auto simp: parseLineToRaw_def Let_def split: if_splits)

lemma classifyPart_time:
  assumes "classifyPart line lno part acc = acc'"
    and "\<forall>s. time (fst acc) = Some s \<longrightarrow> isTimePart s"
  shows "\<forall>s. time (fst acc') = Some s \<longrightarrow> isTimePart s"
  using assms
  by (cases acc) (auto simp: classifyPart_def Let_def split: if_splits sum.splits)

lemma foldl_classifyPart_time:
  "\<forall>s. time (fst acc) = Some s \<longrightarrow> isTimePart s \<Longrightarrow>
   \<forall>s. time (fst (foldl (\<lambda>acc part. classifyPart line lno part acc) acc parts)) = Some s \<longrightarrow> isTimePart s"
proof (induction parts arbitrary: acc)
  case Nil
  then show ?case by simp
next
  case (Cons p parts)
  have "\<forall>s. time (fst (classifyPart line lno p acc)) = Some s \<longrightarrow> isTimePart s"
    using classifyPart_time [OF refl Cons.prems] .
  from Cons.IH [OF this] show ?case by simp
qed

lemma parseTaskContent_time:
  "lc_task (parseTaskContent line lno content) = Some tk \<Longrightarrow> time tk = Some s \<Longrightarrow> isTimePart s"
  using foldl_classifyPart_time [of "(\<lparr>time = None, duration = None, rt_categories = [], titleParts = []\<rparr>, [])"
           line lno "splitTaskParts content"]
  by (auto simp: parseTaskContent_def Let_def split: prod.splits)

lemma isTimePart_parseTime: "isTimePart s \<Longrightarrow> \<exists>v. parseTime s lno = Inr v"
  by (auto simp: isTimePart_def parseTime_def Let_def split: option.splits prod.splits)

lemma parseLineToRaw_timeValue:
  assumes "task (fst (parseLineToRaw sec idx line)) = Some tk"
  shows "timeValue (fst (parseLineToRaw sec idx line)) tk \<noteq> None \<longleftrightarrow> time tk \<noteq> None"
proof (cases "time tk")
  case None
  then show ?thesis by (simp add: timeValue_def)
next
  case (Some s)
  from parseLineToRaw_task [OF assms]
  have "lc_task (parseLineContent line (idx + 1) sec) = Some tk" by blast
  then obtain content where "lc_task (parseTaskContent line (idx + 1) content) = Some tk"
    using parseLineContent_task [of line "idx + 1" sec tk] by auto
  then have "isTimePart s" using Some by (rule parseTaskContent_time)
  then obtain v where "parseTime s (lineNo (fst (parseLineToRaw sec idx line))) = Inr v"
    using isTimePart_parseTime by blast
  then show ?thesis using Some by (simp add: timeValue_def)
qed

lemma rawLinesOf_nth:
  assumes "i < length (rawLinesOf src)"
  shows "\<exists>sec. rawLinesOf src ! i = fst (parseLineToRaw sec i (splitLines src ! i))"
  using assms parseLinesFrom_nth [of i "splitLines src" planner 0]
  by (auto simp: rawLinesOf_def parseLinesFrom_length)

lemma analyzeLine_TaskN:
  assumes "analyzeLine env st rl i = Inr (st', l)" and "node l = Some (TaskN t)"
  shows "\<exists>tk. task rl = Some tk \<and> directive rl = None \<and> \<not> isBlank rl \<and> \<not> isComment rl
            \<and> analyzeTask env st rl tk (pl_id l) = Inr (st', l)"
proof (cases "isBlank rl \<or> isComment rl")
  case True
  then show ?thesis using assms by (auto simp: analyzeLine_def plainLine_def Let_def)
next
  case nb: False
  show ?thesis
  proof (cases "directive rl")
    case (Some d)
    then have "analyzeDirective st rl d (generateLineId (raw rl) i) = (st', l)"
      using assms nb by (auto simp: analyzeLine_def Let_def)
    from analyzeDirective_keeps [OF this] show ?thesis using assms(2) by simp
  next
    case None
    show ?thesis
    proof (cases "task rl")
      case nt: None
      then show ?thesis using assms nb None
        by (auto simp: analyzeLine_def plainLine_def Let_def)
    next
      case (Some tk)
      then have a: "analyzeTask env st rl tk (generateLineId (raw rl) i) = Inr (st', l)"
        using assms nb None by (auto simp: analyzeLine_def Let_def)
      moreover from analyzeTask_Inr [OF a] have "pl_id l = generateLineId (raw rl) i" by metis
      ultimately show ?thesis using Some None nb by simp
    qed
  qed
qed

lemma analyzeLine_task:
  assumes "analyzeLine env st rl i = Inr (st', l)"
    and "task rl = Some tk" and "directive rl = None" and "\<not> isBlank rl" and "\<not> isComment rl"
  shows "analyzeTask env st rl tk (pl_id l) = Inr (st', l)"
proof -
  have a: "analyzeTask env st rl tk (generateLineId (raw rl) i) = Inr (st', l)"
    using assms by (auto simp: analyzeLine_def Let_def)
  moreover from analyzeTask_Inr [OF a] have "pl_id l = generateLineId (raw rl) i" by metis
  ultimately show ?thesis by simp
qed

lemma analyzeLine_nontask:
  assumes "analyzeLine env st rl i = Inr (st', l)"
    and "isBlank rl \<or> isComment rl \<or> directive rl \<noteq> None"
  shows "scheduledTask l = None"
proof (cases "isBlank rl \<or> isComment rl")
  case True
  then show ?thesis using assms by (auto simp: analyzeLine_def plainLine_def Let_def scheduledTask_def)
next
  case nb: False
  then obtain d where d: "directive rl = Some d" using assms(2) by auto
  then have "analyzeDirective st rl d (generateLineId (raw rl) i) = (st', l)"
    using assms nb by (auto simp: analyzeLine_def Let_def)
  from analyzeDirective_keeps [OF this] show ?thesis by (simp add: scheduledTask_def)
qed

lemma rawLinesOf_task:
  assumes "i < length (rawLinesOf src)" and "task (rawLinesOf src ! i) = Some tk"
  shows "directive (rawLinesOf src ! i) = None \<and> \<not> isBlank (rawLinesOf src ! i)
         \<and> \<not> isComment (rawLinesOf src ! i)
         \<and> (timeValue (rawLinesOf src ! i) tk \<noteq> None \<longleftrightarrow> time tk \<noteq> None)"
proof -
  from rawLinesOf_nth [OF assms(1)] obtain sec where
    r: "rawLinesOf src ! i = fst (parseLineToRaw sec i (splitLines src ! i))" by blast
  show ?thesis
    using parseLineToRaw_task [of sec i "splitLines src ! i" tk]
      parseLineToRaw_timeValue [of sec i "splitLines src ! i" tk] assms(2)
    unfolding r by blast
qed

lemma classifyPart_codes:
  assumes "\<forall>d \<in> set (snd acc). notOverlapCode d"
  shows "\<forall>d \<in> set (snd (classifyPart line lno part acc)). notOverlapCode d"
  using assms
  by (cases acc)
     (auto simp: classifyPart_def Let_def parseCategory_def notOverlapCode_def
        split: if_splits sum.splits)

lemma foldl_classifyPart_codes:
  "\<forall>d \<in> set (snd acc). notOverlapCode d \<Longrightarrow>
   \<forall>d \<in> set (snd (foldl (\<lambda>acc part. classifyPart line lno part acc) acc parts)). notOverlapCode d"
proof (induction parts arbitrary: acc)
  case Nil
  then show ?case by simp
next
  case (Cons p parts)
  from Cons.IH [OF classifyPart_codes [OF Cons.prems]] show ?case by simp
qed

lemma parseLineContent_codes:
  "\<forall>d \<in> set (lc_diagnostics (parseLineContent line lno sec)). notOverlapCode d"
proof -
  have t: "\<forall>d \<in> set (lc_diagnostics (parseTaskContent line lno content)). notOverlapCode d" for content
    using foldl_classifyPart_codes [of "(\<lparr>time = None, duration = None, rt_categories = [], titleParts = []\<rparr>, [])"
           line lno "splitTaskParts content"]
    by (auto simp: parseTaskContent_def Let_def trailingComma_def notOverlapCode_def split: prod.splits)
  show ?thesis
    using t by (auto simp: parseLineContent_def Let_def split: option.splits prod.splits)
qed

lemma parseLineToRaw_codes:
  "\<forall>d \<in> set (diagnostics (fst (parseLineToRaw sec idx line))). notOverlapCode d"
proof -
  have p: "\<forall>d \<in> set (pp_diagnostics (preprocessLine line lno)). notOverlapCode d" for lno
    by (auto simp: preprocessLine_def Let_def notOverlapCode_def split: option.splits)
  show ?thesis
    using p [of "idx + 1"] parseLineContent_codes [of line "idx + 1" sec]
    by (auto simp: parseLineToRaw_def Let_def)
qed

lemma parseCategories_codes:
  "\<forall>d \<in> set (snd (parseCategories cats lno)). notOverlapCode d"
proof -
  have "\<forall>d \<in> set (snd acc). notOverlapCode d \<Longrightarrow>
        \<forall>d \<in> set (snd (foldl (\<lambda>(result, errors) category.
              if startsWith category '':'' then
                (let segs = splitColons [] (drop 1 category)
                 in if list_ex (\<lambda>s. trim s = []) segs
                    then (result,
                          errors @ [\<lparr>code = ''E050-bad-category'',
                                      message = ''Empty category segment'',
                                      span = lineSpan lno category\<rparr>])
                    else (result @ [\<lparr>segments = segs\<rparr>], errors))
              else (result, errors)) acc cats)). notOverlapCode d" for acc
  proof (induction cats arbitrary: acc)
    case Nil
    then show ?case by simp
  next
    case (Cons c cats)
    show ?case
      apply simp
      apply (rule Cons.IH)
      using Cons.prems
      apply (cases acc)
      apply (auto simp: Let_def notOverlapCode_def)
      done
  qed
  from this [of "([], [])"] show ?thesis by (simp add: parseCategories_def)
qed

lemma parseTime_error: "parseTime t lno = Inl err \<Longrightarrow> code err = ''E001-bad-time''"
  by (auto simp: parseTime_def Let_def split: if_splits option.splits prod.splits)

lemma parseDuration_error: "parseDuration d lno = Inl err \<Longrightarrow> code err = ''E010-bad-duration''"
  by (auto simp: parseDuration_def Let_def split: if_splits prod.splits)

lemma collectParseErrors_codes:
  assumes "\<forall>d \<in> set (diagnostics rl). notOverlapCode d"
  shows "\<forall>d \<in> set (collectParseErrors rl tk). notOverlapCode d"
  using assms parseCategories_codes [of "rt_categories tk" "lineNo rl"]
  by (auto simp: collectParseErrors_def notOverlapCode_def
        dest!: parseTime_error [OF sym] parseDuration_error [OF sym]
        split: option.splits sum.splits)

lemma hasCode_append:
  "list_ex (\<lambda>d. code d = c) (xs @ ys) \<longleftrightarrow> list_ex (\<lambda>d. code d = c) xs \<or> list_ex (\<lambda>d. code d = c) ys"
  by (simp add: list_ex_iff) blast

lemma analysis_task_at:
  assumes "parseAndAnalyze env src opts = Inr p" and "i < length (pr_lines p)"
    and "node (pr_lines p ! i) = Some (TaskN t)"
  shows "\<exists>st st' tk. analysisUpTo env opts src i = Inr (st, take i (pr_lines p))
           \<and> task (rawLinesOf src ! i) = Some tk
           \<and> analyzeTask env st (rawLinesOf src ! i) tk (pl_id (pr_lines p ! i)) = Inr (st', pr_lines p ! i)
           \<and> cursorTime st = lastScheduledEnd (take i (pr_lines p))
           \<and> tasks st = scheduledTasks (take i (pr_lines p))
           \<and> i < length (rawLinesOf src)"
proof -
  from analysis_at [OF assms(1,2)] obtain st st' where
    up: "analysisUpTo env opts src i = Inr (st, take i (pr_lines p))"
    and a: "analyzeLine env st (rawLinesOf src ! i) i = Inr (st', pr_lines p ! i)"
    and c: "cursorTime st = lastScheduledEnd (take i (pr_lines p))"
    and ts: "tasks st = scheduledTasks (take i (pr_lines p))"
    and len: "length (pr_lines p) = length (rawLinesOf src)"
    by blast
  from analyzeLine_TaskN [OF a assms(3)] obtain tk where
    "task (rawLinesOf src ! i) = Some tk"
    "analyzeTask env st (rawLinesOf src ! i) tk (pl_id (pr_lines p ! i)) = Inr (st', pr_lines p ! i)"
    by blast
  then show ?thesis using up c ts len assms(2) by auto
qed

lemma analysisUpTo_Suc:
  assumes "parseAndAnalyze env src opts = Inr p" and "i < length (pr_lines p)"
    and "analysisUpTo env opts src i = Inr (st, ls)"
    and "analyzeLine env st (rawLinesOf src ! i) i = Inr (st', l)"
  shows "analysisUpTo env opts src (Suc i) = Inr (st', ls @ [l])"
proof -
  from analysis_at [OF assms(1,2)] have len: "length (pr_lines p) = length (rawLinesOf src)" by blast
  then have i: "i < length (rawLinesOf src)" using assms(2) by simp
  have t: "take (Suc i) (rawLinesOf src) = take i (rawLinesOf src) @ [rawLinesOf src ! i]"
    using i by (simp add: take_Suc_conv_app_nth)
  have li: "length (take i (rawLinesOf src)) = i" using i by simp
  show ?thesis
    using assms(3,4) unfolding analysisUpTo_def t secondPass_append li
    by simp
qed

section \<open>Offsets and shifts\<close>

lemma not_digit_units [simp]: "\<not> isDigit CHR ''h''" "\<not> isDigit CHR ''m''"
  by (simp_all add: isDigit_def)

lemma parseInt_simps [simp]: "parseInt [] = 0" "parseInt ''0'' = 0"
  by (simp_all add: parseInt_def digitVal_def)

lemma optUnit_hit:
  assumes "ds \<noteq> []" and "list_all isDigit ds" and "\<not> isDigit u"
  shows "optUnit u (ds @ u # r) = (Some ds, r)"
proof -
  have a: "\<forall>x \<in> set ds. isDigit x" using assms(2) by (simp add: list_all_iff)
  have "takeWhile isDigit (ds @ u # r) = ds"
    using a assms(3) by (simp add: takeWhile_append2)
  moreover have "dropWhile isDigit (ds @ u # r) = u # r"
    using a assms(3) by (simp add: dropWhile_append2)
  ultimately show ?thesis using assms(1) by (simp add: optUnit_def)
qed

lemma optUnit_other:
  assumes "list_all isDigit ds" and "r = [] \<or> (\<not> isDigit (hd r) \<and> hd r \<noteq> u)"
  shows "optUnit u (ds @ r) = (None, ds @ r)"
proof -
  have a: "\<forall>x \<in> set ds. isDigit x" using assms(1) by (simp add: list_all_iff)
  have "dropWhile isDigit (ds @ r) = r"
    using a assms(2) by (cases r) (auto simp: dropWhile_append2)
  then show ?thesis using assms(2) by (auto simp: optUnit_def Let_def)
qed

lemma optUnit_cases:
  "optUnit u s = (g, r) \<Longrightarrow>
     (g = None \<and> r = s) \<or> (\<exists>ds. g = Some ds \<and> ds \<noteq> [] \<and> list_all isDigit ds \<and> s = ds @ u # r)"
proof -
  assume a: "optUnit u s = (g, r)"
  have s: "s = takeWhile isDigit s @ dropWhile isDigit s" by simp
  have d: "list_all isDigit (takeWhile isDigit s)"
    by (simp add: list_all_iff) (meson set_takeWhileD)
  show ?thesis
  proof (cases "takeWhile isDigit s \<noteq> [] \<and> dropWhile isDigit s \<noteq> [] \<and> hd (dropWhile isDigit s) = u")
    case True
    then have g: "g = Some (takeWhile isDigit s)" and r: "r = tl (dropWhile isDigit s)"
      using a by (auto simp: optUnit_def Let_def)
    have "dropWhile isDigit s = u # r" using True r by (cases "dropWhile isDigit s") auto
    then have "s = takeWhile isDigit s @ u # r" using s by metis
    then show ?thesis using g d True by blast
  next
    case False
    then show ?thesis using a by (auto simp: optUnit_def Let_def)
  qed
qed

lemma trim_nonempty: "\<not> isSpace c \<Longrightarrow> trim (c # cs) \<noteq> []"
  by (simp add: trim_def dropWhile_append)

lemma sign_not_space: "sg = CHR ''+'' \<or> sg = CHR ''-'' \<Longrightarrow> \<not> isSpace sg"
  by (auto simp: isSpace_def)

lemma parseTimeOffset_shape:
  assumes "offsetShape s sg hs ms"
  shows "parseTimeOffset s =
           (if offsetMagnitude hs ms = 0 then None
            else Some \<lparr>hours = parseInt hs, minutes = parseInt ms,
                       sign = (if sg = CHR ''+'' then 1 else - 1)\<rparr>)"
proof -
  from assms have s: "s = offsetText sg hs ms" and sg: "sg = CHR ''+'' \<or> sg = CHR ''-''"
    and dh: "list_all isDigit hs" and dm: "list_all isDigit ms" and ne: "hs \<noteq> [] \<or> ms \<noteq> []"
    by (auto simp: offsetShape_def)
  have mag: "offsetMagnitude hs ms = 0 \<longleftrightarrow> parseInt hs = 0 \<and> parseInt ms = 0"
    by (simp add: offsetMagnitude_def)
  show ?thesis
  proof (cases "hs = []")
    case True
    then have m: "ms \<noteq> []" using ne by simp
    have o1: "optUnit CHR ''h'' (ms @ ''m'') = (None, ms @ ''m'')"
      using optUnit_other [OF dm, of "''m''" "CHR ''h''"] by simp
    have o2: "optUnit CHR ''m'' (ms @ ''m'') = (Some ms, [])"
      using optUnit_hit [OF m dm, of "CHR ''m''" "[]"] by simp
    show ?thesis
      using sg True m o1 o2 unfolding s mag
      by (auto simp: parseTimeOffset_def offsetText_def orZero_def Let_def)
  next
    case h: False
    have o1: "optUnit CHR ''h'' (hs @ CHR ''h'' # r) = (Some hs, r)" for r
      using optUnit_hit [OF h dh, of "CHR ''h''" r] by simp
    show ?thesis
    proof (cases "ms = []")
      case True
      have o2: "optUnit CHR ''m'' [] = (None, [])" by (simp add: optUnit_def)
      show ?thesis
        using sg h True o1 [of "[]"] o2 unfolding s mag
        by (auto simp: parseTimeOffset_def offsetText_def orZero_def Let_def)
    next
      case m: False
      have o2: "optUnit CHR ''m'' (ms @ ''m'') = (Some ms, [])"
        using optUnit_hit [OF m dm, of "CHR ''m''" "[]"] by simp
      show ?thesis
        using sg h m o1 [of "ms @ ''m''"] o2 unfolding s mag
        by (auto simp: parseTimeOffset_def offsetText_def orZero_def Let_def)
    qed
  qed
qed

lemma parseTimeOffset_Some_shape:
  assumes "parseTimeOffset s = Some off"
  shows "\<exists>sg hs ms. offsetShape s sg hs ms \<and> offsetMagnitude hs ms \<noteq> 0
           \<and> hours off = parseInt hs \<and> minutes off = parseInt ms"
proof -
  from assms obtain sg rest where s: "s = sg # rest" and sg: "sg = CHR ''+'' \<or> sg = CHR ''-''"
    by (cases s) (auto simp: parseTimeOffset_def split: if_splits)
  obtain g1 r1 where o1: "optUnit CHR ''h'' rest = (g1, r1)" by (cases "optUnit CHR ''h'' rest") auto
  obtain g2 r2 where o2: "optUnit CHR ''m'' r1 = (g2, r2)" by (cases "optUnit CHR ''m'' r1") auto
  from assms s sg o1 o2 have r2: "r2 = []"
    and nz: "\<not> (parseInt (orZero g1) = 0 \<and> parseInt (orZero g2) = 0)"
    and hh: "hours off = parseInt (orZero g1)" and mm: "minutes off = parseInt (orZero g2)"
    by (auto simp: parseTimeOffset_def Let_def split: if_splits)
  define hs where "hs = (case g1 of None \<Rightarrow> [] | Some ds \<Rightarrow> ds)"
  define ms where "ms = (case g2 of None \<Rightarrow> [] | Some ds \<Rightarrow> ds)"
  have p1: "parseInt (orZero g1) = parseInt hs" by (cases g1) (auto simp: hs_def orZero_def)
  have p2: "parseInt (orZero g2) = parseInt ms" by (cases g2) (auto simp: ms_def orZero_def)
  have c1: "(g1 = None \<and> r1 = rest) \<or> (\<exists>ds. g1 = Some ds \<and> ds \<noteq> [] \<and> list_all isDigit ds \<and> rest = ds @ CHR ''h'' # r1)"
    using optUnit_cases [OF o1] .
  have c2: "(g2 = None \<and> r1 = []) \<or> (\<exists>ds. g2 = Some ds \<and> ds \<noteq> [] \<and> list_all isDigit ds \<and> r1 = ds @ ''m'')"
    using optUnit_cases [OF o2] r2 by auto
  have dh: "list_all isDigit hs" using c1 by (auto simp: hs_def)
  have dm: "list_all isDigit ms" using c2 by (auto simp: ms_def)
  have rest: "rest = (if hs = [] then [] else hs @ ''h'') @ (if ms = [] then [] else ms @ ''m'')"
    using c1 c2 by (auto simp: hs_def ms_def)
  have ne: "hs \<noteq> [] \<or> ms \<noteq> []" using nz p1 p2 by auto
  have "offsetShape s sg hs ms"
    using s sg dh dm rest ne by (simp add: offsetShape_def offsetText_def)
  moreover have "offsetMagnitude hs ms \<noteq> 0" using nz p1 p2 by (simp add: offsetMagnitude_def)
  ultimately show ?thesis using hh mm p1 p2 by auto
qed

lemma validateTimeOffset_valid_iff:
  "valid (validateTimeOffset s) \<longleftrightarrow>
     (\<exists>sg hs ms. offsetShape s sg hs ms \<and> 0 < offsetMagnitude hs ms \<and> offsetMagnitude hs ms \<le> 720)"
proof
  assume v: "valid (validateTimeOffset s)"
  then obtain off where p: "parseTimeOffset s = Some off" and le: "hours off * 60 + minutes off \<le> 720"
    by (auto simp: validateTimeOffset_def Let_def split: if_splits option.splits)
  from parseTimeOffset_Some_shape [OF p] obtain sg hs ms where
    sh: "offsetShape s sg hs ms" and nz: "offsetMagnitude hs ms \<noteq> 0"
    and hm: "hours off = parseInt hs" "minutes off = parseInt ms" by blast
  have "offsetMagnitude hs ms \<le> 720" using le hm by (simp add: offsetMagnitude_def)
  moreover have "0 < offsetMagnitude hs ms" using nz by simp
  ultimately show
    "\<exists>sg hs ms. offsetShape s sg hs ms \<and> 0 < offsetMagnitude hs ms \<and> offsetMagnitude hs ms \<le> 720"
    using sh by blast
next
  assume "\<exists>sg hs ms. offsetShape s sg hs ms \<and> 0 < offsetMagnitude hs ms \<and> offsetMagnitude hs ms \<le> 720"
  then obtain sg hs ms where sh: "offsetShape s sg hs ms" and m: "0 < offsetMagnitude hs ms"
    "offsetMagnitude hs ms \<le> 720" by blast
  have t: "trim s \<noteq> []"
    using sh trim_nonempty [OF sign_not_space] by (auto simp: offsetShape_def offsetText_def)
  show "valid (validateTimeOffset s)"
    using t m parseTimeOffset_shape [OF sh]
    by (simp add: validateTimeOffset_def Let_def offsetMagnitude_def)
qed

lemma validateTimeOffset_zero:
  assumes "offsetShape s sg hs ms" and "offsetMagnitude hs ms = 0"
  shows "validateTimeOffset s = \<lparr>valid = False, error = Some formatErrorMessage\<rparr>"
proof -
  have t: "trim s \<noteq> []"
    using assms(1) trim_nonempty [OF sign_not_space] by (auto simp: offsetShape_def offsetText_def)
  show ?thesis
    using t assms(2) parseTimeOffset_shape [OF assms(1)]
    by (simp add: validateTimeOffset_def formatErrorMessage_def)
qed

lemma validateTimeOffset_large:
  assumes "offsetShape s sg hs ms" and "720 < offsetMagnitude hs ms"
  shows "validateTimeOffset s = \<lparr>valid = False, error = Some ''Offset too large (max 12 hours)''\<rparr>"
proof -
  have t: "trim s \<noteq> []"
    using assms(1) trim_nonempty [OF sign_not_space] by (auto simp: offsetShape_def offsetText_def)
  have nz: "offsetMagnitude hs ms \<noteq> 0" using assms(2) by simp
  have "parseTimeOffset s = Some \<lparr>hours = parseInt hs, minutes = parseInt ms,
                       sign = (if sg = CHR ''+'' then 1 else - 1)\<rparr>"
    using parseTimeOffset_shape [OF assms(1)] nz by simp
  then show ?thesis
    using t assms(2)
    by (simp add: validateTimeOffset_def Let_def offsetMagnitude_def)
qed

lemma applyTimeOffsetToTimeString_error:
  "\<not> ts_success (applyTimeOffsetToTimeString ts off) \<Longrightarrow>
     ts_error (applyTimeOffsetToTimeString ts off) \<noteq> None"
  by (auto simp: applyTimeOffsetToTimeString_def Let_def split: option.splits prod.splits)

lemma shiftTaskTime_failure:
  assumes "\<not> success (shiftTaskTime rawLine tk offset)"
  shows "newLineContent (shiftTaskTime rawLine tk offset) = None
       \<and> affectedLines (shiftTaskTime rawLine tk offset) = None
       \<and> shiftError (shiftTaskTime rawLine tk offset) \<noteq> None"
  using assms applyTimeOffsetToTimeString_error
  by (auto simp: shiftTaskTime_def shiftFailure_def shiftSuccess_def Let_def
        split: option.splits if_splits prod.splits)

lemma executeTimeShift_failure:
  assumes "\<not> success (executeTimeShift line offset allLines)"
  shows "newLineContent (executeTimeShift line offset allLines) = None
       \<and> affectedLines (executeTimeShift line offset allLines) = None
       \<and> shiftError (executeTimeShift line offset allLines) \<noteq> None"
proof (cases "valid (validateTimeOffset offset)")
  case False
  then have "error (validateTimeOffset offset) \<noteq> None"
    by (auto simp: validateTimeOffset_def Let_def split: if_splits option.splits)
  then show ?thesis using False by (simp add: executeTimeShift_def shiftFailure_def)
next
  case v: True
  show ?thesis
  proof (cases "\<exists>tk. node line = Some (TaskN tk)")
    case False
    then have "executeTimeShift line offset allLines
                 = shiftFailure (Some ''Time shift can only be applied to task lines'')"
      using v by (auto simp: executeTimeShift_def split: option.splits Node.splits)
    then show ?thesis by (simp add: shiftFailure_def)
  next
    case True
    then obtain tk where tk: "node line = Some (TaskN tk)" by blast
    show ?thesis
    proof (cases "lf_valid (validateTaskLineFormat (pl_raw line))")
      case False
      then show ?thesis using v tk by (simp add: executeTimeShift_def shiftFailure_def)
    next
      case lf: True
      have e: "executeTimeShift line offset allLines =
                 (let r = shiftTaskTime (pl_raw line) tk offset
                  in if \<not> success r then r
                     else \<lparr>success = True, newLineContent = newLineContent r, shiftError = None,
                           affectedLines = Some (map pl_id (findAffectedLines line allLines))\<rparr>)"
        using v tk lf by (simp add: executeTimeShift_def)
      show ?thesis
      proof (cases "success (shiftTaskTime (pl_raw line) tk offset)")
        case True
        then show ?thesis using assms e by (simp add: Let_def)
      next
        case False
        then show ?thesis using e shiftTaskTime_failure [OF False] by (simp add: Let_def)
      qed
    qed
  qed
qed

lemma executeTimeShift_bad_offset:
  "\<not> valid (validateTimeOffset offset) \<Longrightarrow>
     executeTimeShift line offset allLines = shiftFailure (error (validateTimeOffset offset))"
  by (simp add: executeTimeShift_def)

lemma executeTimeShift_non_task:
  "valid (validateTimeOffset offset) \<Longrightarrow> \<forall>tk. node line \<noteq> Some (TaskN tk) \<Longrightarrow>
     executeTimeShift line offset allLines
       = shiftFailure (Some ''Time shift can only be applied to task lines'')"
  by (auto simp: executeTimeShift_def split: option.splits Node.splits)

lemma valid_parse: "valid (validateTimeOffset offset) \<Longrightarrow> \<exists>po. parseTimeOffset offset = Some po"
  by (auto simp: validateTimeOffset_def Let_def split: if_splits option.splits)

lemma executeTimeShift_no_token:
  assumes "valid (validateTimeOffset offset)" and "node line = Some (TaskN tk)"
    and "lf_valid (validateTaskLineFormat (pl_raw line))"
    and "explicitStart tk" and "start tk \<noteq> None"
    and "findTimeTokenInLine (pl_raw line) = None"
  shows "executeTimeShift line offset allLines
           = shiftFailure (Some ''Could not locate time in line to modify'')"
proof -
  from valid_parse [OF assms(1)] obtain po where "parseTimeOffset offset = Some po" by blast
  then have "shiftTaskTime (pl_raw line) tk offset
               = shiftFailure (Some ''Could not locate time in line to modify'')"
    using assms(4,5,6) by (simp add: shiftTaskTime_def)
  then show ?thesis using assms(1,2,3) by (simp add: executeTimeShift_def shiftFailure_def)
qed

lemma batch_fold:
  "foldl (\<lambda>(results, hasErrors) line.
            (let result = f line
             in (mapSet results (pl_id line) result, hasErrors \<or> \<not> success result)))
     (r0, h0) ls = (r, h) \<Longrightarrow> h = (h0 \<or> (\<exists>l \<in> set ls. \<not> success (f l)))"
  by (induction ls arbitrary: r0 h0) (auto simp: Let_def)

lemma executeBatchTimeShift_failed:
  assumes "valid (validateTimeOffset offset)" and "l \<in> set lines"
    and "\<not> success (executeTimeShift l offset lines)"
  shows "\<not> bs_success (executeBatchTimeShift lines offset)
       \<and> bs_error (executeBatchTimeShift lines offset) = Some ''Some lines failed to shift''"
proof -
  obtain r h where f: "foldl (\<lambda>(results, hasErrors) line.
            (let result = executeTimeShift line offset lines
             in (mapSet results (pl_id line) result, hasErrors \<or> \<not> success result)))
     ([], False) lines = (r, h)" by (meson surj_pair)
  from batch_fold [OF f] assms(2,3) have h by blast
  then show ?thesis using assms(1) f by (simp add: executeBatchTimeShift_def)
qed

section \<open>The claims about the analyzer\<close>

text \<open>
  Claim C10. Every task line of planner mode in an analysis result carries a task node
  whose title is not empty, and is the literal "Untitled" when the line has no title
  fragment; this holds whatever the status of the line is.
\<close>

theorem task_node_titled:
  assumes "parseAndAnalyze env src opts = Inr p"
    and "i < length (pr_lines p)"
    and "task (rawLinesOf src ! i) = Some tk"
  shows "\<exists>t. node (pr_lines p ! i) = Some (TaskN t) \<and> title t \<noteq> []
            \<and> (titleParts tk = [] \<longrightarrow> title t = ''Untitled'')"
proof -
  from analysis_at [OF assms(1,2)] obtain st st' where
    a: "analyzeLine env st (rawLinesOf src ! i) i = Inr (st', pr_lines p ! i)"
    and len: "length (pr_lines p) = length (rawLinesOf src)"
    by blast
  have i: "i < length (rawLinesOf src)" using assms(2) len by simp
  note r = rawLinesOf_task [OF i assms(3)]
  have "analyzeTask env st (rawLinesOf src ! i) tk (pl_id (pr_lines p ! i)) = Inr (st', pr_lines p ! i)"
    using analyzeLine_task [OF a assms(3)] r by simp
  from analyzeTask_Inr [OF this] obtain t where
    "node (pr_lines p ! i) = Some (TaskN t)" "title t = taskTitle tk"
    by (metis TaskNode.select_convs(1))
  then show ?thesis using taskTitle_nonempty taskTitle_untitled by auto
qed

text \<open>
  Claim C3. For a task line with a resolved start and end, an overlap diagnostic is
  emitted exactly when the half-open interval test holds against one of the tasks
  scheduled before it and the overlap policy in force at the line is not "ignore": the
  code is E030-overlap exactly under the policy "error" and W010-overlap exactly under
  the policy "warning", and under "ignore" there is neither.
\<close>

theorem overlap_detection:
  assumes "parseAndAnalyze env src opts = Inr p" and "i < length (pr_lines p)"
    and "node (pr_lines p ! i) = Some (TaskN t)"
    and "start t = Some s" and "finish t = Some e"
  shows "\<exists>st. analysisUpTo env opts src i = Inr (st, take i (pr_lines p))
           \<and> (hasCode ''E030-overlap'' (pr_lines p ! i) \<longleftrightarrow>
                overlapPolicy (an_context st) = PolicyError
                \<and> list_ex (intervalsIntersect s e) (scheduledTasks (take i (pr_lines p))))
           \<and> (hasCode ''W010-overlap'' (pr_lines p ! i) \<longleftrightarrow>
                overlapPolicy (an_context st) = PolicyWarning
                \<and> list_ex (intervalsIntersect s e) (scheduledTasks (take i (pr_lines p))))
           \<and> ((hasCode ''E030-overlap'' (pr_lines p ! i) \<or> hasCode ''W010-overlap'' (pr_lines p ! i)) \<longleftrightarrow>
                overlapPolicy (an_context st) \<noteq> PolicyIgnore
                \<and> list_ex (intervalsIntersect s e) (scheduledTasks (take i (pr_lines p))))"
proof -
  let ?l = "pr_lines p ! i" and ?r = "rawLinesOf src ! i"
  from analysis_task_at [OF assms(1,2,3)] obtain st st' tk where
    up: "analysisUpTo env opts src i = Inr (st, take i (pr_lines p))"
    and tk: "task ?r = Some tk"
    and a: "analyzeTask env st ?r tk (pl_id ?l) = Inr (st', ?l)"
    and ts: "tasks st = scheduledTasks (take i (pr_lines p))"
    and i: "i < length (rawLinesOf src)"
    by blast
  from a obtain startDate explicit missing startIso endIso dur t' where
    ds: "determineStart env st ?r tk = (startDate, explicit, missing)"
    and s: "toISOString startDate = Inr startIso"
    and e: "toISOString (map_option (addMinutes dur) startDate) = Inr endIso"
    and d: "pl_diagnostics ?l = collectParseErrors ?r tk @ missing
        @ overlapDiagnostic st ?r startDate (map_option (addMinutes dur) startDate)"
    and t': "t' = \<lparr>title = taskTitle tk, start = startIso, durationMin = dur, finish = endIso,
          categories = fst (parseCategories (rt_categories tk) (lineNo ?r)),
          explicitStart = explicit, explicitDuration = (durationValue ?r tk \<noteq> None)\<rparr>"
    and n: "node ?l = Some (TaskN t')"
    by (rule analyzeTask_Inr)
  have tt: "t' = t" using n assms(3) by simp
  have si: "startIso = Some s" and ei: "endIso = Some e" using tt t' assms(4,5) by auto
  have sd: "startDate = Some (ValidDate s)" using s si by (auto simp: toISOString_Inr)
  have ed: "map_option (addMinutes dur) startDate = Some (ValidDate e)"
    using e ei by (auto simp: toISOString_Inr)
  from rawLinesOf_nth [OF i] obtain sec where
    r: "?r = fst (parseLineToRaw sec i (splitLines src ! i))" by blast
  have "\<forall>d \<in> set (diagnostics ?r). notOverlapCode d"
    unfolding r by (rule parseLineToRaw_codes)
  then have c1: "\<forall>d \<in> set (collectParseErrors ?r tk). notOverlapCode d"
    by (rule collectParseErrors_codes)
  have "missing = []" using determineStart_cases [OF ds] sd by simp
  then have c2: "\<forall>d \<in> set (collectParseErrors ?r tk @ missing). notOverlapCode d"
    using c1 by simp
  have ov: "checkOverlap st (ValidDate s) (ValidDate e)
             = list_ex (intervalsIntersect s e) (scheduledTasks (take i (pr_lines p)))"
    unfolding checkOverlap_def ts
    by (simp add: list_ex_iff overlaps_def intervalsIntersect_def)
  have no: "\<not> list_ex (\<lambda>d. code d = c) (collectParseErrors ?r tk @ missing)"
    if "c = ''E030-overlap'' \<or> c = ''W010-overlap''" for c
    using c2 that by (auto simp: list_ex_iff notOverlapCode_def)
  have d': "pl_diagnostics ?l = (collectParseErrors ?r tk @ missing)
        @ overlapDiagnostic st ?r (Some (ValidDate s)) (Some (ValidDate e))"
    using d unfolding ed unfolding sd by simp
  have h: "hasCode c ?l = list_ex (\<lambda>d. code d = c)
             (overlapDiagnostic st ?r (Some (ValidDate s)) (Some (ValidDate e)))"
    if "c = ''E030-overlap'' \<or> c = ''W010-overlap''" for c
    using no [OF that] unfolding hasCode_def d' hasCode_append by simp
  have E: "hasCode ''E030-overlap'' ?l \<longleftrightarrow>
            overlapPolicy (an_context st) = PolicyError
            \<and> list_ex (intervalsIntersect s e) (scheduledTasks (take i (pr_lines p)))"
    unfolding h [of "''E030-overlap''", simplified] overlapDiagnostic_def
    by (cases "overlapPolicy (an_context st)") (auto simp: ov)
  have W: "hasCode ''W010-overlap'' ?l \<longleftrightarrow>
            overlapPolicy (an_context st) = PolicyWarning
            \<and> list_ex (intervalsIntersect s e) (scheduledTasks (take i (pr_lines p)))"
    unfolding h [of "''W010-overlap''", simplified] overlapDiagnostic_def
    by (cases "overlapPolicy (an_context st)") (auto simp: ov)
  show ?thesis
    using up E W by (cases "overlapPolicy (an_context st)") auto
qed

text \<open>
  Claim C2. A task line advances the cursor and joins the scheduled set exactly when
  none of its diagnostics is of the error class: the analyzer after the line is the
  analyzer before it when the line has an error, and otherwise has the end of the task
  as its cursor and the task appended to its scheduled tasks. So the analyzer before a
  line holds, as cursor, the end of the most recent task line without an error and, as
  scheduled set, exactly the task lines without an error; and a task line without a time
  token takes that cursor as its start.
\<close>

theorem committal_and_chaining:
  assumes "parseAndAnalyze env src opts = Inr p" and "i < length (pr_lines p)"
    and "node (pr_lines p ! i) = Some (TaskN t)"
  shows "\<exists>st st' tk.
           analysisUpTo env opts src i = Inr (st, take i (pr_lines p))
           \<and> analysisUpTo env opts src (Suc i) = Inr (st', take (Suc i) (pr_lines p))
           \<and> cursorTime st = lastScheduledEnd (take i (pr_lines p))
           \<and> tasks st = scheduledTasks (take i (pr_lines p))
           \<and> (if list_ex isErrorDiag (pl_diagnostics (pr_lines p ! i)) then st' = st
               else \<exists>e. finish t = Some e
                      \<and> st' = st\<lparr>cursorTime := Some e, tasks := tasks st @ [t]\<rparr>)
           \<and> task (rawLinesOf src ! i) = Some tk
           \<and> (explicitStart t \<longleftrightarrow> time tk \<noteq> None)
           \<and> (time tk = None \<longrightarrow> start t = lastScheduledEnd (take i (pr_lines p)))"
proof -
  let ?l = "pr_lines p ! i" and ?r = "rawLinesOf src ! i"
  from analysis_task_at [OF assms(1,2,3)] obtain st st' tk where
    up: "analysisUpTo env opts src i = Inr (st, take i (pr_lines p))"
    and tk: "task ?r = Some tk"
    and a: "analyzeTask env st ?r tk (pl_id ?l) = Inr (st', ?l)"
    and c: "cursorTime st = lastScheduledEnd (take i (pr_lines p))"
    and ts: "tasks st = scheduledTasks (take i (pr_lines p))"
    and i: "i < length (rawLinesOf src)"
    by blast
  from analysis_at [OF assms(1,2)] obtain st0 st0' where
    up0: "analysisUpTo env opts src i = Inr (st0, take i (pr_lines p))"
    and al: "analyzeLine env st0 ?r i = Inr (st0', ?l)"
    by blast
  have st0: "st0 = st" using up up0 by simp
  note r = rawLinesOf_task [OF i tk]
  have "analyzeTask env st ?r tk (pl_id ?l) = Inr (st0', ?l)"
    using analyzeLine_task [OF al tk] r st0 by simp
  then have st0': "st0' = st'" using a by simp
  have up': "analysisUpTo env opts src (Suc i) = Inr (st', take (Suc i) (pr_lines p))"
    using analysisUpTo_Suc [OF assms(1,2) up0 al] assms(2) st0'
    by (simp add: take_Suc_conv_app_nth)
  from a obtain startDate explicit missing startIso endIso dur t' where
    ds: "determineStart env st ?r tk = (startDate, explicit, missing)"
    and s: "toISOString startDate = Inr startIso"
    and t': "t' = \<lparr>title = taskTitle tk, start = startIso, durationMin = dur, finish = endIso,
          categories = fst (parseCategories (rt_categories tk) (lineNo ?r)),
          explicitStart = explicit, explicitDuration = (durationValue ?r tk \<noteq> None)\<rparr>"
    and n: "node ?l = Some (TaskN t')"
    by (rule analyzeTask_Inr)
  have tt: "t' = t" using n assms(3) by simp
  have st_eq: "start t = startIso" unfolding tt [symmetric] t' by simp
  have "explicit \<longleftrightarrow> timeValue ?r tk \<noteq> None"
    using determineStart_cases [OF ds] by blast
  moreover have "explicitStart t = explicit" unfolding tt [symmetric] t' by simp
  ultimately have ex: "explicitStart t \<longleftrightarrow> time tk \<noteq> None"
    using r by simp
  have chain: "start t = lastScheduledEnd (take i (pr_lines p))" if "time tk = None"
  proof -
    have tv: "timeValue ?r tk = None" using that by (simp add: timeValue_def)
    show ?thesis
    proof (cases "cursorTime st")
      case None
      then have "missing \<noteq> []" using determineStart_cases [OF ds] tv by blast
      then have "startDate = None" using determineStart_cases [OF ds] by blast
      then have "startIso = None" using s by (simp add: toISOString_Inr)
      then show ?thesis using st_eq None c by simp
    next
      case (Some cur)
      then have "startDate = Some (ValidDate cur)" using determineStart_cases [OF ds] tv by blast
      then have "startIso = Some cur" using s by (simp add: toISOString_Inr)
      then show ?thesis using st_eq Some c by simp
    qed
  qed
  have commit: "if list_ex isErrorDiag (pl_diagnostics ?l) then st' = st
               else \<exists>e. finish t = Some e
                      \<and> st' = st\<lparr>cursorTime := Some e, tasks := tasks st @ [t]\<rparr>"
    using analyzeTask_commit [OF a] assms(3) by auto
  from chain have chain': "time tk = None \<longrightarrow> start t = lastScheduledEnd (take i (pr_lines p))"
    by simp
  show ?thesis
    apply (rule exI [of _ st])
    apply (rule exI [of _ st'])
    apply (rule exI [of _ tk])
    apply (intro conjI)
           apply (fact up up' c ts commit tk ex chain')+
    done
qed

text \<open>
  Claim C5. A task line of planner mode that has no time token, and before which no
  task has been validly scheduled, receives the diagnostic E020-missing-start-first-line
  and has the status "invalid". In particular this holds for a task line without a time
  token before which every line is blank, a comment or a directive.
\<close>

theorem first_line_anchor:
  assumes "parseAndAnalyze env src opts = Inr p" and "i < length (pr_lines p)"
    and "task (rawLinesOf src ! i) = Some tk" and "time tk = None"
    and "scheduledTasks (take i (pr_lines p)) = []
         \<or> (\<forall>j < i. isBlank (rawLinesOf src ! j) \<or> isComment (rawLinesOf src ! j)
                      \<or> directive (rawLinesOf src ! j) \<noteq> None)"
  shows "hasCode ''E020-missing-start-first-line'' (pr_lines p ! i)
         \<and> status (pr_lines p ! i) = Invalid"
proof -
  let ?l = "pr_lines p ! i" and ?r = "rawLinesOf src ! i"
  have none: "scheduledTasks (take i (pr_lines p)) = []"
  proof (rule disjE [OF assms(5)])
    assume all: "\<forall>j < i. isBlank (rawLinesOf src ! j) \<or> isComment (rawLinesOf src ! j)
                      \<or> directive (rawLinesOf src ! j) \<noteq> None"
    have "scheduledTask l = None" if "l \<in> set (take i (pr_lines p))" for l
    proof -
      from that obtain j where j: "j < i" "l = pr_lines p ! j"
        using assms(2) by (auto simp: in_set_conv_nth)
      then have "j < length (pr_lines p)" using assms(2) by simp
      from analysis_at [OF assms(1) this] obtain st st' where
        "analyzeLine env st (rawLinesOf src ! j) j = Inr (st', pr_lines p ! j)" by blast
      from analyzeLine_nontask [OF this] all j show ?thesis by simp
    qed
    then show ?thesis
      by (auto simp: scheduledTasks_def List.map_filter_def filter_empty_conv)
  qed simp
  from analysis_at [OF assms(1,2)] obtain st st' where
    a: "analyzeLine env st ?r i = Inr (st', ?l)"
    and c: "cursorTime st = lastScheduledEnd (take i (pr_lines p))"
    and len: "length (pr_lines p) = length (rawLinesOf src)"
    by blast
  have i: "i < length (rawLinesOf src)" using assms(2) len by simp
  note r = rawLinesOf_task [OF i assms(3)]
  have at: "analyzeTask env st ?r tk (pl_id ?l) = Inr (st', ?l)"
    using analyzeLine_task [OF a assms(3)] r by simp
  from at obtain startDate explicit missing startIso endIso dur where
    ds: "determineStart env st ?r tk = (startDate, explicit, missing)"
    and d: "pl_diagnostics ?l = collectParseErrors ?r tk @ missing
        @ overlapDiagnostic st ?r startDate (map_option (addMinutes dur) startDate)"
    and stt: "status ?l = (if list_ex isErrorDiag (pl_diagnostics ?l) then Invalid
                 else if pl_diagnostics ?l \<noteq> [] then ValidWithWarnings else Valid)"
    by (rule analyzeTask_Inr)
  have cur: "cursorTime st = None" using c none by (simp add: lastScheduledEnd_def)
  have tv: "timeValue ?r tk = None" using assms(4) by (simp add: timeValue_def)
  have m: "missing \<noteq> []" using determineStart_cases [OF ds] tv cur by blast
  then have m1: "list_ex isErrorDiag missing"
    and m2: "list_ex (\<lambda>d. code d = ''E020-missing-start-first-line'') missing"
    using determineStart_cases [OF ds] by blast+
  have "list_ex isErrorDiag (pl_diagnostics ?l)" using m1 unfolding d by (auto simp: list_ex_iff)
  moreover have "hasCode ''E020-missing-start-first-line'' ?l"
    using m2 unfolding d hasCode_def by (auto simp: list_ex_iff)
  ultimately show ?thesis using stt by simp
qed

subsection \<open>Instances on sample texts\<close>

theorem task_node_titled_witness:
  "\<exists>p t. parseAndAnalyze sampleEnv ''- 30m'' noOptions = Inr p
         \<and> status (pr_lines p ! 0) = Invalid
         \<and> node (pr_lines p ! 0) = Some (TaskN t) \<and> title t = ''Untitled''"
proof -
  let ?src = "''- 30m''"
  let ?p = "\<lparr>pr_context = \<lparr>day = ''2025-01-15'', timezone = Some ''UTC'',
                defaultDurationMin = 30, overlapPolicy = PolicyWarning\<rparr>,
             pr_lines =
               [\<lparr>pl_id = ''line_0_289733d'', pl_raw = ''- 30m'', pl_lineNo = 1, status = Invalid,
                 pl_diagnostics =
                   [\<lparr>code = ''E020-missing-start-first-line'',
                     message = ''First task must have an explicit start time'',
                     span = Some \<lparr>sp_line = 1, startCol = 1, endCol = 6\<rparr>\<rparr>],
                 node = Some (TaskN \<lparr>title = ''Untitled'', start = None, durationMin = 30,
                          finish = None, categories = [], explicitStart = False,
                          explicitDuration = True\<rparr>)\<rparr>]\<rparr>"
  have h1: "parseAndAnalyze sampleEnv ?src noOptions = Inr ?p" by code_simp
  have h2: "0 < length (pr_lines ?p)" by simp
  have h3: "task (rawLinesOf ?src ! 0)
              = Some \<lparr>time = None, duration = Some ''30m'', rt_categories = [], titleParts = []\<rparr>"
    by code_simp
  from task_node_titled [OF h1 h2 h3] obtain t where
    "node (pr_lines ?p ! 0) = Some (TaskN t)" "title t = ''Untitled''" by auto
  then show ?thesis using h1 by (intro exI [of _ ?p] exI [of _ t]) simp
qed

theorem first_line_anchor_witness:
  "\<exists>p. parseAndAnalyze sampleEnv ''# plan\<newline>- Standup'' noOptions = Inr p
       \<and> hasCode ''E020-missing-start-first-line'' (pr_lines p ! 1)
       \<and> status (pr_lines p ! 1) = Invalid"
proof -
  let ?src = "''# plan\<newline>- Standup''"
  let ?p = "\<lparr>pr_context = \<lparr>day = ''2025-01-15'', timezone = Some ''UTC'',
                defaultDurationMin = 30, overlapPolicy = PolicyWarning\<rparr>,
             pr_lines =
               [\<lparr>pl_id = ''line_0_3db11906'', pl_raw = ''# plan'', pl_lineNo = 1,
                 status = Valid, pl_diagnostics = [], node = None\<rparr>,
                \<lparr>pl_id = ''line_1_1b11422'', pl_raw = ''- Standup'', pl_lineNo = 2,
                 status = Invalid,
                 pl_diagnostics =
                   [\<lparr>code = ''E020-missing-start-first-line'',
                     message = ''First task must have an explicit start time'',
                     span = Some \<lparr>sp_line = 2, startCol = 1, endCol = 10\<rparr>\<rparr>],
                 node = Some (TaskN \<lparr>title = ''Standup'', start = None, durationMin = 30,
                          finish = None, categories = [], explicitStart = False,
                          explicitDuration = False\<rparr>)\<rparr>]\<rparr>"
  have h1: "parseAndAnalyze sampleEnv ?src noOptions = Inr ?p" by code_simp
  have h2: "1 < length (pr_lines ?p)" by simp
  have h3: "task (rawLinesOf ?src ! 1)
              = Some \<lparr>time = None, duration = None, rt_categories = [], titleParts = [''Standup'']\<rparr>"
    by code_simp
  have h4: "time \<lparr>time = None, duration = None, rt_categories = [], titleParts = [''Standup'']\<rparr> = None"
    by simp
  have h5: "scheduledTasks (take 1 (pr_lines ?p)) = []"
    by (simp add: scheduledTasks_def List.map_filter_def scheduledTask_def)
  from first_line_anchor [OF h1 h2 h3 h4 disjI1 [OF h5]] h1 show ?thesis by blast
qed

theorem committal_and_chaining_witness:
  "\<exists>p t. parseAndAnalyze sampleEnv ''- 9am, A, 30m\<newline>- 25x\<newline>- B'' noOptions = Inr p
         \<and> status (pr_lines p ! 1) = Invalid
         \<and> node (pr_lines p ! 2) = Some (TaskN t)
         \<and> start t = Some 22170
         \<and> lastScheduledEnd (take 2 (pr_lines p)) = Some 22170"
proof -
  let ?src = "''- 9am, A, 30m\<newline>- 25x\<newline>- B''"
  let ?t = "\<lparr>title = ''B'', start = Some 22170, durationMin = 30, finish = Some 22200,
             categories = [], explicitStart = False, explicitDuration = False\<rparr>"
  let ?p = "\<lparr>pr_context = \<lparr>day = ''2025-01-15'', timezone = Some ''UTC'',
                defaultDurationMin = 30, overlapPolicy = PolicyWarning\<rparr>,
             pr_lines =
               [\<lparr>pl_id = ''line_0_5bfec7bf'', pl_raw = ''- 9am, A, 30m'', pl_lineNo = 1,
                 status = Valid, pl_diagnostics = [],
                 node = Some (TaskN \<lparr>title = ''A'', start = Some 22140, durationMin = 30,
                          finish = Some 22170, categories = [], explicitStart = True,
                          explicitDuration = True\<rparr>)\<rparr>,
                \<lparr>pl_id = ''line_1_2897022'', pl_raw = ''- 25x'', pl_lineNo = 2,
                 status = Invalid,
                 pl_diagnostics =
                   [\<lparr>code = ''E010-bad-duration'', message = ''Invalid duration format: 25x'',
                     span = Some \<lparr>sp_line = 2, startCol = 1, endCol = 6\<rparr>\<rparr>],
                 node = Some (TaskN \<lparr>title = ''25x'', start = Some 22170, durationMin = 30,
                          finish = Some 22200, categories = [], explicitStart = False,
                          explicitDuration = False\<rparr>)\<rparr>,
                \<lparr>pl_id = ''line_2_ad0f'', pl_raw = ''- B'', pl_lineNo = 3,
                 status = Valid, pl_diagnostics = [], node = Some (TaskN ?t)\<rparr>]\<rparr>"
  have h1: "parseAndAnalyze sampleEnv ?src noOptions = Inr ?p" by code_simp
  have h2: "2 < length (pr_lines ?p)" by simp
  have h3: "node (pr_lines ?p ! 2) = Some (TaskN ?t)" by simp
  have h5: "task (rawLinesOf ?src ! 2)
              = Some \<lparr>time = None, duration = None, rt_categories = [], titleParts = [''B'']\<rparr>"
    by code_simp
  have h6: "lastScheduledEnd (take 2 (pr_lines ?p)) = Some 22170"
    by (simp add: lastScheduledEnd_def scheduledTasks_def List.map_filter_def scheduledTask_def
          isErrorDiag_def startsWith_def numeral_2_eq_2)
  from committal_and_chaining [OF h1 h2 h3] obtain tk where
    a: "task (rawLinesOf ?src ! 2) = Some tk"
    and b: "time tk = None \<longrightarrow> start ?t = lastScheduledEnd (take 2 (pr_lines ?p))"
    by auto
  from a h5 have "time tk = None" by auto
  with b have "start ?t = lastScheduledEnd (take 2 (pr_lines ?p))" by simp
  then show ?thesis using h1 h6
    by (intro exI [of _ ?p] exI [of _ ?t]) simp
qed

theorem overlap_detection_witness:
  "\<exists>p. parseAndAnalyze sampleEnv ''- 9am, A, 1h\<newline>- 9:30am, B'' noOptions = Inr p
       \<and> hasCode ''W010-overlap'' (pr_lines p ! 1)
       \<and> list_ex (intervalsIntersect 22170 22200) (scheduledTasks (take 1 (pr_lines p)))"
proof -
  let ?src = "''- 9am, A, 1h\<newline>- 9:30am, B''"
  let ?t = "\<lparr>title = ''B'', start = Some 22170, durationMin = 30, finish = Some 22200,
             categories = [], explicitStart = True, explicitDuration = False\<rparr>"
  let ?p = "\<lparr>pr_context = \<lparr>day = ''2025-01-15'', timezone = Some ''UTC'',
                defaultDurationMin = 30, overlapPolicy = PolicyWarning\<rparr>,
             pr_lines =
               [\<lparr>pl_id = ''line_0_15ce7da6'', pl_raw = ''- 9am, A, 1h'', pl_lineNo = 1,
                 status = Valid, pl_diagnostics = [],
                 node = Some (TaskN \<lparr>title = ''A'', start = Some 22140, durationMin = 60,
                          finish = Some 22200, categories = [], explicitStart = True,
                          explicitDuration = True\<rparr>)\<rparr>,
                \<lparr>pl_id = ''line_1_22f1faf1'', pl_raw = ''- 9:30am, B'', pl_lineNo = 2,
                 status = ValidWithWarnings,
                 pl_diagnostics =
                   [\<lparr>code = ''W010-overlap'', message = ''Task overlaps with previous task'',
                     span = Some \<lparr>sp_line = 2, startCol = 1, endCol = 12\<rparr>\<rparr>],
                 node = Some (TaskN ?t)\<rparr>]\<rparr>"
  have h1: "parseAndAnalyze sampleEnv ?src noOptions = Inr ?p" by code_simp
  have h2: "1 < length (pr_lines ?p)" by simp
  have h3: "node (pr_lines ?p ! 1) = Some (TaskN ?t)" by simp
  have h4: "start ?t = Some 22170" and h5: "finish ?t = Some 22200" by simp_all
  have h6: "hasCode ''W010-overlap'' (pr_lines ?p ! 1)" by (simp add: hasCode_def)
  from overlap_detection [OF h1 h2 h3 h4 h5] obtain st where
    X: "analysisUpTo sampleEnv noOptions ?src 1 = Inr (st, take 1 (pr_lines ?p))
        \<and> (hasCode ''E030-overlap'' (pr_lines ?p ! 1) \<longleftrightarrow>
             overlapPolicy (an_context st) = PolicyError
             \<and> list_ex (intervalsIntersect 22170 22200) (scheduledTasks (take 1 (pr_lines ?p))))
        \<and> (hasCode ''W010-overlap'' (pr_lines ?p ! 1) \<longleftrightarrow>
             overlapPolicy (an_context st) = PolicyWarning
             \<and> list_ex (intervalsIntersect 22170 22200) (scheduledTasks (take 1 (pr_lines ?p))))
        \<and> ((hasCode ''E030-overlap'' (pr_lines ?p ! 1) \<or> hasCode ''W010-overlap'' (pr_lines ?p ! 1)) \<longleftrightarrow>
             overlapPolicy (an_context st) \<noteq> PolicyIgnore
             \<and> list_ex (intervalsIntersect 22170 22200) (scheduledTasks (take 1 (pr_lines ?p))))" ..
  note W = X [THEN conjunct2, THEN conjunct2, THEN conjunct1]
  from W h6 have "list_ex (intervalsIntersect 22170 22200) (scheduledTasks (take 1 (pr_lines ?p)))"
    by (rule iffD1 [THEN conjunct2])
  then show ?thesis using h1 h6 by (intro exI [of _ ?p]) simp
qed

section \<open>Offset validation and failed shifts\<close>

text \<open>
  Claim C8, as amended. An offset is accepted exactly when it is a sign followed by an
  hour count with its unit and/or a minute count with its unit, at least one of them
  present, of a magnitude that is not zero and not above 12 hours. An offset above 12
  hours is rejected with the message "Offset too large (max 12 hours)"; an offset of
  magnitude zero is rejected with the message of a plain format error. A shift request
  that fails has success = false, an error message and no new line text: the message
  of the validation for a bad offset, "Time shift can only be applied to task lines"
  for a target that is no task, "Could not locate time in line to modify" when the
  time token of an explicit start is not found; these messages differ from one another.
\<close>

theorem offset_validation_and_failure:
  "(valid (validateTimeOffset s) \<longleftrightarrow>
      (\<exists>sg hs ms. offsetShape s sg hs ms \<and> 0 < offsetMagnitude hs ms \<and> offsetMagnitude hs ms \<le> 720))
   \<and> (offsetShape s sg hs ms \<and> 720 < offsetMagnitude hs ms \<longrightarrow>
        validateTimeOffset s = \<lparr>valid = False, error = Some ''Offset too large (max 12 hours)''\<rparr>)
   \<and> (offsetShape s sg hs ms \<and> offsetMagnitude hs ms = 0 \<longrightarrow>
        validateTimeOffset s = \<lparr>valid = False, error = Some formatErrorMessage\<rparr>)
   \<and> (\<not> success (executeTimeShift line offset allLines) \<longrightarrow>
        newLineContent (executeTimeShift line offset allLines) = None
        \<and> shiftError (executeTimeShift line offset allLines) \<noteq> None)
   \<and> (\<not> valid (validateTimeOffset offset) \<longrightarrow>
        executeTimeShift line offset allLines = shiftFailure (error (validateTimeOffset offset))
        \<and> error (validateTimeOffset offset) \<in>
            {Some ''Offset cannot be empty'', Some formatErrorMessage,
             Some ''Offset too large (max 12 hours)''})
   \<and> (valid (validateTimeOffset offset) \<and> (\<forall>tk. node line \<noteq> Some (TaskN tk)) \<longrightarrow>
        executeTimeShift line offset allLines
          = shiftFailure (Some ''Time shift can only be applied to task lines''))
   \<and> (valid (validateTimeOffset offset) \<and> node line = Some (TaskN tk)
        \<and> lf_valid (validateTaskLineFormat (pl_raw line))
        \<and> explicitStart tk \<and> start tk \<noteq> None \<and> findTimeTokenInLine (pl_raw line) = None \<longrightarrow>
        executeTimeShift line offset allLines
          = shiftFailure (Some ''Could not locate time in line to modify''))
   \<and> distinct [''Offset cannot be empty'', formatErrorMessage, ''Offset too large (max 12 hours)'',
                ''Time shift can only be applied to task lines'',
                ''Could not locate time in line to modify'']"
proof (intro conjI impI)
  show "valid (validateTimeOffset s) \<longleftrightarrow>
      (\<exists>sg hs ms. offsetShape s sg hs ms \<and> 0 < offsetMagnitude hs ms \<and> offsetMagnitude hs ms \<le> 720)"
    by (rule validateTimeOffset_valid_iff)
  show "validateTimeOffset s = \<lparr>valid = False, error = Some ''Offset too large (max 12 hours)''\<rparr>"
    if "offsetShape s sg hs ms \<and> 720 < offsetMagnitude hs ms"
    using that validateTimeOffset_large by blast
  show "validateTimeOffset s = \<lparr>valid = False, error = Some formatErrorMessage\<rparr>"
    if "offsetShape s sg hs ms \<and> offsetMagnitude hs ms = 0"
    using that validateTimeOffset_zero by blast
  show "newLineContent (executeTimeShift line offset allLines) = None"
    if "\<not> success (executeTimeShift line offset allLines)"
    using executeTimeShift_failure [OF that] by simp
  show "shiftError (executeTimeShift line offset allLines) \<noteq> None"
    if "\<not> success (executeTimeShift line offset allLines)"
    using executeTimeShift_failure [OF that] by simp
  show "executeTimeShift line offset allLines = shiftFailure (error (validateTimeOffset offset))"
    if "\<not> valid (validateTimeOffset offset)"
    using that by (rule executeTimeShift_bad_offset)
  show "error (validateTimeOffset offset) \<in>
            {Some ''Offset cannot be empty'', Some formatErrorMessage,
             Some ''Offset too large (max 12 hours)''}"
    if "\<not> valid (validateTimeOffset offset)"
    using that
    by (auto simp: validateTimeOffset_def formatErrorMessage_def Let_def split: if_splits option.splits)
  show "executeTimeShift line offset allLines
          = shiftFailure (Some ''Time shift can only be applied to task lines'')"
    if "valid (validateTimeOffset offset) \<and> (\<forall>tk. node line \<noteq> Some (TaskN tk))"
    using that executeTimeShift_non_task by blast
  show "executeTimeShift line offset allLines
          = shiftFailure (Some ''Could not locate time in line to modify'')"
    if "valid (validateTimeOffset offset) \<and> node line = Some (TaskN tk)
        \<and> lf_valid (validateTaskLineFormat (pl_raw line))
        \<and> explicitStart tk \<and> start tk \<noteq> None \<and> findTimeTokenInLine (pl_raw line) = None"
    using that executeTimeShift_no_token by blast
  show "distinct [''Offset cannot be empty'', formatErrorMessage, ''Offset too large (max 12 hours)'',
                ''Time shift can only be applied to task lines'',
                ''Could not locate time in line to modify'']"
    by (simp add: formatErrorMessage_def)
qed

theorem offset_zero_counterexample:
  "validateTimeOffset ''+0m'' = \<lparr>valid = False, error = Some formatErrorMessage\<rparr>
   \<and> validateTimeOffset ''+1x'' = \<lparr>valid = False, error = Some formatErrorMessage\<rparr>"
  by code_simp


theorem offset_validation_and_failure_witness:
  "valid (validateTimeOffset ''+1h30m'')
   \<and> validateTimeOffset ''+13h'' = \<lparr>valid = False, error = Some ''Offset too large (max 12 hours)''\<rparr>
   \<and> validateTimeOffset ''-0h0m'' = \<lparr>valid = False, error = Some formatErrorMessage\<rparr>
   \<and> (\<exists>p. parseAndAnalyze sampleEnv ''- a//b, 9am\<newline># note'' noOptions = Inr p
        \<and> executeTimeShift (pr_lines p ! 0) ''+15m'' (pr_lines p)
            = shiftFailure (Some ''Could not locate time in line to modify'')
        \<and> executeTimeShift (pr_lines p ! 1) ''+15m'' (pr_lines p)
            = shiftFailure (Some ''Time shift can only be applied to task lines'')
        \<and> executeTimeShift (pr_lines p ! 0) ''+13h'' (pr_lines p)
            = shiftFailure (Some ''Offset too large (max 12 hours)'')
        \<and> newLineContent (executeTimeShift (pr_lines p ! 0) ''+13h'' (pr_lines p)) = None)"
proof -
  define tk where "tk = \<lparr>title = ''a//b'', start = Some 22140, durationMin = 30,
                         finish = Some 22170, categories = [],
                         explicitStart = True, explicitDuration = False\<rparr>"
  define l0 where "l0 = \<lparr>pl_id = ''line_0_55a2221d'', pl_raw = ''- a//b, 9am'',
                         pl_lineNo = 1, status = Valid, pl_diagnostics = [],
                         node = Some (TaskN tk)\<rparr>"
  define l1 where "l1 = \<lparr>pl_id = ''line_1_3db03dcf'', pl_raw = ''# note'', pl_lineNo = 2,
                         status = Valid, pl_diagnostics = [], node = None\<rparr>"
  define p where "p = \<lparr>pr_context = \<lparr>day = ''2025-01-15'', timezone = Some ''UTC'',
                                      defaultDurationMin = 30, overlapPolicy = PolicyWarning\<rparr>,
                        pr_lines = [l0, l1]\<rparr>"
  have pa: "parseAndAnalyze sampleEnv ''- a//b, 9am\<newline># note'' noOptions = Inr p"
    unfolding p_def l0_def l1_def tk_def by code_simp
  have ok: "offsetShape ''+1h30m'' CHR ''+'' ''1'' ''30'' \<and> 0 < offsetMagnitude ''1'' ''30''
            \<and> offsetMagnitude ''1'' ''30'' \<le> 720"
    by code_simp
  have big: "offsetShape ''+13h'' CHR ''+'' ''13'' '''' \<and> 720 < offsetMagnitude ''13'' ''''"
    by code_simp
  have zero: "offsetShape ''-0h0m'' CHR ''-'' ''0'' ''0'' \<and> offsetMagnitude ''0'' ''0'' = 0"
    by code_simp
  have v15: "valid (validateTimeOffset ''+15m'')" by code_simp
  have v13: "\<not> valid (validateTimeOffset ''+13h'')" by code_simp
  have lf: "lf_valid (validateTaskLineFormat ''- a//b, 9am'')" by code_simp
  have nt: "findTimeTokenInLine ''- a//b, 9am'' = None" by code_simp
  have c1: "valid (validateTimeOffset ''+1h30m'')"
    using offset_validation_and_failure [where s = "''+1h30m''"] ok by blast
  have c2: "validateTimeOffset ''+13h''
              = \<lparr>valid = False, error = Some ''Offset too large (max 12 hours)''\<rparr>"
    using offset_validation_and_failure
            [where s = "''+13h''" and sg = "CHR ''+''" and hs = "''13''" and ms = "''''"] big
    by blast
  have c3: "validateTimeOffset ''-0h0m'' = \<lparr>valid = False, error = Some formatErrorMessage\<rparr>"
    using offset_validation_and_failure
            [where s = "''-0h0m''" and sg = "CHR ''-''" and hs = "''0''" and ms = "''0''"] zero
    by blast
  have h4: "valid (validateTimeOffset ''+15m'') \<and> node l0 = Some (TaskN tk)
        \<and> lf_valid (validateTaskLineFormat (pl_raw l0))
        \<and> explicitStart tk \<and> start tk \<noteq> None \<and> findTimeTokenInLine (pl_raw l0) = None"
    using v15 lf nt by (simp add: l0_def tk_def)
  have c4: "executeTimeShift l0 ''+15m'' [l0, l1]
              = shiftFailure (Some ''Could not locate time in line to modify'')"
    using offset_validation_and_failure
            [where line = l0 and offset = "''+15m''" and allLines = "[l0, l1]" and tk = tk] h4
    by blast
  have h5: "valid (validateTimeOffset ''+15m'') \<and> (\<forall>tk. node l1 \<noteq> Some (TaskN tk))"
    using v15 by (simp add: l1_def)
  have c5: "executeTimeShift l1 ''+15m'' [l0, l1]
              = shiftFailure (Some ''Time shift can only be applied to task lines'')"
    using offset_validation_and_failure
            [where line = l1 and offset = "''+15m''" and allLines = "[l0, l1]"] h5
    by blast
  have c6: "executeTimeShift l0 ''+13h'' [l0, l1]
              = shiftFailure (Some ''Offset too large (max 12 hours)'')"
    using offset_validation_and_failure
            [where line = l0 and offset = "''+13h''" and allLines = "[l0, l1]"] v13 c2
    by simp
  have ns: "\<not> success (executeTimeShift l0 ''+13h'' [l0, l1])"
    by (simp add: c6 shiftFailure_def)
  have c7: "newLineContent (executeTimeShift l0 ''+13h'' [l0, l1]) = None"
    using offset_validation_and_failure
            [where line = l0 and offset = "''+13h''" and allLines = "[l0, l1]"] ns
    by blast
  have "parseAndAnalyze sampleEnv ''- a//b, 9am\<newline># note'' noOptions = Inr p
        \<and> executeTimeShift (pr_lines p ! 0) ''+15m'' (pr_lines p)
            = shiftFailure (Some ''Could not locate time in line to modify'')
        \<and> executeTimeShift (pr_lines p ! 1) ''+15m'' (pr_lines p)
            = shiftFailure (Some ''Time shift can only be applied to task lines'')
        \<and> executeTimeShift (pr_lines p ! 0) ''+13h'' (pr_lines p)
            = shiftFailure (Some ''Offset too large (max 12 hours)'')
        \<and> newLineContent (executeTimeShift (pr_lines p ! 0) ''+13h'' (pr_lines p)) = None"
    using pa c4 c5 c6 c7 by (simp add: p_def)
  then have "\<exists>p. parseAndAnalyze sampleEnv ''- a//b, 9am\<newline># note'' noOptions = Inr p
        \<and> executeTimeShift (pr_lines p ! 0) ''+15m'' (pr_lines p)
            = shiftFailure (Some ''Could not locate time in line to modify'')
        \<and> executeTimeShift (pr_lines p ! 1) ''+15m'' (pr_lines p)
            = shiftFailure (Some ''Time shift can only be applied to task lines'')
        \<and> executeTimeShift (pr_lines p ! 0) ''+13h'' (pr_lines p)
            = shiftFailure (Some ''Offset too large (max 12 hours)'')
        \<and> newLineContent (executeTimeShift (pr_lines p ! 0) ''+13h'' (pr_lines p)) = None"
    by (rule exI [of _ p])
  with c1 c2 c3 show ?thesis by simp
qed

section \<open>Batch shifts in the language service\<close>

text \<open>
  Claim C9. The language service does not report the lines of a batch one by one when
  one of them fails: as soon as the shift of one selected line fails, the whole batch
  returns failure, with no new content and an empty result map, although
  \<open>executeBatchTimeShift\<close> has computed the new text of every other line.
\<close>

theorem batch_failure_blocks_all:
  "valid (validateTimeOffset offset) \<and> analyzeDocument env content = Inr program
   \<and> l \<in> set (selectLines (pr_lines program) lineNumbers)
   \<and> \<not> success (executeTimeShift l offset (selectLines (pr_lines program) lineNumbers))
   \<longrightarrow> shiftMultipleLines env content lineNumbers offset
         = Inr \<lparr>b_success = False, newContent = None,
                b_error = Some ''Some lines failed to shift'', b_results = []\<rparr>"
  using executeBatchTimeShift_failed [of offset l "selectLines (pr_lines program) lineNumbers"]
  by (simp add: shiftMultipleLines_def Let_def)

theorem batch_failure_blocks_all_witness:
  "shiftMultipleLines sampleEnv ''- 9am, A\<newline># note'' [1, 2] ''+15m''
     = Inr \<lparr>b_success = False, newContent = None,
            b_error = Some ''Some lines failed to shift'', b_results = []\<rparr>
   \<and> (\<exists>p. analyzeDocument sampleEnv ''- 9am, A\<newline># note'' = Inr p
          \<and> map (\<lambda>(k, r). (k, success r, newLineContent r))
                (bs_results (executeBatchTimeShift (selectLines (pr_lines p) [1, 2]) ''+15m''))
            = [(''line_0_4629a45b'', True, Some ''- 9:15am, A''),
               (''line_1_3db03dcf'', False, None)])"
proof -
  define l0 where "l0 = \<lparr>pl_id = ''line_0_4629a45b'', pl_raw = ''- 9am, A'', pl_lineNo = 1,
         status = Valid, pl_diagnostics = [],
         node = Some (TaskN \<lparr>title = ''A'', start = Some 22140, durationMin = 30,
                 finish = Some 22170, categories = [], explicitStart = True,
                 explicitDuration = False\<rparr>)\<rparr>"
  define l1 where "l1 = \<lparr>pl_id = ''line_1_3db03dcf'', pl_raw = ''# note'', pl_lineNo = 2,
         status = Valid, pl_diagnostics = [], node = None\<rparr>"
  define p where "p = \<lparr>pr_context = \<lparr>day = ''2025-01-15'', timezone = Some ''UTC'',
                                      defaultDurationMin = 30, overlapPolicy = PolicyWarning\<rparr>,
                        pr_lines = [l0, l1]\<rparr>"
  have pa: "analyzeDocument sampleEnv ''- 9am, A\<newline># note'' = Inr p"
    unfolding p_def l0_def l1_def by code_simp
  have sel: "selectLines (pr_lines p) [1, 2] = [l0, l1]"
    by (simp add: selectLines_def p_def)
  have v: "valid (validateTimeOffset ''+15m'')" by code_simp
  have f: "\<not> success (executeTimeShift l1 ''+15m'' [l0, l1])"
    unfolding l0_def l1_def by code_simp
  have b: "map (\<lambda>(k, r). (k, success r, newLineContent r))
                (bs_results (executeBatchTimeShift [l0, l1] ''+15m''))
            = [(''line_0_4629a45b'', True, Some ''- 9:15am, A''),
               (''line_1_3db03dcf'', False, None)]"
    unfolding l0_def l1_def by code_simp
  have "shiftMultipleLines sampleEnv ''- 9am, A\<newline># note'' [1, 2] ''+15m''
     = Inr \<lparr>b_success = False, newContent = None,
            b_error = Some ''Some lines failed to shift'', b_results = []\<rparr>"
    using batch_failure_blocks_all
            [of "''+15m''" sampleEnv "''- 9am, A\<newline># note''" p l1 "[1, 2]"] v pa f
    by (simp add: sel)
  moreover have "\<exists>p. analyzeDocument sampleEnv ''- 9am, A\<newline># note'' = Inr p
          \<and> map (\<lambda>(k, r). (k, success r, newLineContent r))
                (bs_results (executeBatchTimeShift (selectLines (pr_lines p) [1, 2]) ''+15m''))
            = [(''line_0_4629a45b'', True, Some ''- 9:15am, A''),
               (''line_1_3db03dcf'', False, None)]"
    using pa b by (intro exI [of _ p]) (simp add: sel)
  ultimately show ?thesis by simp
qed

end
